theory Spec2Isabelle
  imports Main "HOL-Library.Sublist"
begin

section \<open>Strings and raw errors\<close>

text \<open>
  JavaScript strings are modelled as \<open>string\<close> (a list of 8-bit characters); every
  literal the source compares against is ASCII. \<open>String.prototype.includes\<close> is the
  case-sensitive substring test.
\<close>

fun str_includes :: "string \<Rightarrow> string \<Rightarrow> bool" where
  "str_includes [] sub = (sub = [])"
| "str_includes (c # cs) sub = (prefix sub (c # cs) \<or> str_includes cs sub)"

text \<open>
  A raw error as \<open>ErrorHandler\<close> receives it (\<open>@param {Error|Object|string}\<close>):
  \<open>Nullish\<close> for \<open>null\<close>, \<open>undefined\<close> and the other falsy values that are not strings, a
  string, or an object with the properties the classifier reads. \<open>message\<close> is \<open>None\<close> when
  the property is absent; \<open>code\<close> and \<open>status\<close> are numeric (the HTTP status that
  \<open>_makeApiRequest\<close> attaches), \<open>None\<close> when absent. The message of these objects is text,
  as it is for every \<open>Error\<close> the modelled code throws and catches; what the classifier does
  with a message of another type is \<open>classifyError_js\<close> below.
\<close>

record js_error =
  message :: "string option"
  code :: "int option"
  status :: "int option"

datatype raw_error = Nullish | ErrStr string | ErrObj js_error

text \<open>\<open>new Error(msg)\<close>: an object with only a message.\<close>

definition newError :: "string \<Rightarrow> js_error" where
  "newError msg = \<lparr>message = Some msg, code = None, status = None\<rparr>"

text \<open>\<open>!error\<close>: \<open>null\<close>, \<open>undefined\<close> and the empty string are falsy; objects are truthy.\<close>

fun falsy :: "raw_error \<Rightarrow> bool" where
  "falsy Nullish = True"
| "falsy (ErrStr s) = (s = [])"
| "falsy (ErrObj e) = False"

text \<open>\<open>typeof error === 'string' ? error : error.message || ''\<close>\<close>

fun errorMessage_of :: "raw_error \<Rightarrow> string" where
  "errorMessage_of Nullish = []"
| "errorMessage_of (ErrStr s) = s"
| "errorMessage_of (ErrObj e) = (case message e of None \<Rightarrow> [] | Some m \<Rightarrow> m)"

text \<open>
  \<open>error.code || error.status || ''\<close>: the first truthy of the two numbers (0 is falsy);
  \<open>None\<close> stands for the final \<open>''\<close>, which equals no number and, read as the number 0,
  is not \<open>>= 500\<close>.
\<close>

definition truthy_num :: "int option \<Rightarrow> bool" where
  "truthy_num v = (case v of None \<Rightarrow> False | Some n \<Rightarrow> n \<noteq> 0)"

fun errorCode_of :: "raw_error \<Rightarrow> int option" where
  "errorCode_of (ErrObj e) =
     (if truthy_num (code e) then code e
      else if truthy_num (status e) then status e else None)"
| "errorCode_of _ = None"

definition code_is :: "int option \<Rightarrow> int \<Rightarrow> bool" where
  "code_is c n = (c = Some n)"

definition code_ge :: "int option \<Rightarrow> int \<Rightarrow> bool" where
  "code_ge c n = (case c of None \<Rightarrow> False | Some k \<Rightarrow> n \<le> k)"

section \<open>ErrorHandler\<close>

text \<open>
  \<open>logError\<close> writes one entry to the console and returns nothing; it has no counterpart
  here.
\<close>

subsection \<open>ERROR\_TYPES\<close>

definition TOKEN_EXPIRED :: string where "TOKEN_EXPIRED = ''auth.token_expired''"
definition INVALID_CREDENTIALS :: string where "INVALID_CREDENTIALS = ''auth.invalid_credentials''"
definition PERMISSION_DENIED :: string where "PERMISSION_DENIED = ''auth.permission_denied''"
definition VERIFICATION_REQUIRED :: string where "VERIFICATION_REQUIRED = ''auth.verification_required''"
definition INVALID_EMAIL :: string where "INVALID_EMAIL = ''validation.invalid_email''"
definition MISSING_REQUIRED_FIELD :: string where "MISSING_REQUIRED_FIELD = ''validation.missing_field''"
definition FILE_TOO_LARGE :: string where "FILE_TOO_LARGE = ''validation.file_too_large''"
definition INVALID_FILE_TYPE :: string where "INVALID_FILE_TYPE = ''validation.invalid_file_type''"
definition NETWORK_ERROR :: string where "NETWORK_ERROR = ''api.network_error''"
definition RATE_LIMIT :: string where "RATE_LIMIT = ''api.rate_limit''"
definition SERVER_ERROR :: string where "SERVER_ERROR = ''api.server_error''"
definition TIMEOUT :: string where "TIMEOUT = ''api.timeout''"
definition QUOTA_EXCEEDED :: string where "QUOTA_EXCEEDED = ''storage.quota_exceeded''"
definition CORRUPTION :: string where "CORRUPTION = ''storage.corruption''"
definition ACCESS_DENIED :: string where "ACCESS_DENIED = ''storage.access_denied''"

subsection \<open>RECOVERY\_STRATEGIES\<close>

record strategy =
  action :: string
  userMessage :: string
  autoRetry :: bool
  maxRetries :: "nat option"

definition RECOVERY_STRATEGIES :: "string \<rightharpoonup> strategy" where
  "RECOVERY_STRATEGIES = map_of
     [(TOKEN_EXPIRED,
        \<lparr>action = ''refresh_token'',
         userMessage = ''Session expired. Refreshing authentication...'',
         autoRetry = True, maxRetries = Some 1\<rparr>),
      (RATE_LIMIT,
        \<lparr>action = ''exponential_backoff'',
         userMessage = ''Rate limit reached. Retrying in a moment...'',
         autoRetry = True, maxRetries = Some 3\<rparr>),
      (FILE_TOO_LARGE,
        \<lparr>action = ''user_action_required'',
         userMessage = ''File is too large. Please select a smaller file.'',
         autoRetry = False, maxRetries = None\<rparr>),
      (NETWORK_ERROR,
        \<lparr>action = ''retry'',
         userMessage = ''Network error. Retrying...'',
         autoRetry = True, maxRetries = Some 2\<rparr>)]"

subsection \<open>classifyError\<close>

definition classifyError :: "raw_error \<Rightarrow> string" where
  "classifyError error =
     (if falsy error then ''unknown''
      else
        let errorMessage = errorMessage_of error;
            errorCode = errorCode_of error
        in
        if str_includes errorMessage ''token'' \<and> str_includes errorMessage ''expired''
          then TOKEN_EXPIRED
        else if str_includes errorMessage ''invalid_grant'' \<or> str_includes errorMessage ''unauthorized''
          then INVALID_CREDENTIALS
        else if str_includes errorMessage ''permission'' \<or> code_is errorCode 403
          then PERMISSION_DENIED
        else if str_includes errorMessage ''verification'' \<or> str_includes errorMessage ''not completed''
          then VERIFICATION_REQUIRED
        else if code_is errorCode 429 \<or> str_includes errorMessage ''rate limit''
          then RATE_LIMIT
        else if code_ge errorCode 500 \<or> str_includes errorMessage ''server error''
          then SERVER_ERROR
        else if str_includes errorMessage ''network'' \<or> str_includes errorMessage ''fetch''
          then NETWORK_ERROR
        else if str_includes errorMessage ''email'' \<and> str_includes errorMessage ''invalid''
          then INVALID_EMAIL
        else if str_includes errorMessage ''file'' \<and> str_includes errorMessage ''large''
          then FILE_TOO_LARGE
        else if str_includes errorMessage ''required''
          then MISSING_REQUIRED_FIELD
        else if str_includes errorMessage ''quota'' \<or> str_includes errorMessage ''QUOTA_BYTES''
          then QUOTA_EXCEEDED
        else ''unknown'')"

definition isRetryableError :: "string \<Rightarrow> bool" where
  "isRetryableError errorType =
     (case RECOVERY_STRATEGIES errorType of None \<Rightarrow> False | Some strategy \<Rightarrow> autoRetry strategy)"

text \<open>
  The if-chain of \<open>classifyError\<close> read as an ordered list of (predicate, kind) pairs
  over the message text and the effective code, evaluated top to bottom.
\<close>

type_synonym rule = "(string \<Rightarrow> int option \<Rightarrow> bool) \<times> string"

definition classify_rules :: "rule list" where
  "classify_rules =
    [(\<lambda>m c. str_includes m ''token'' \<and> str_includes m ''expired'', TOKEN_EXPIRED),
     (\<lambda>m c. str_includes m ''invalid_grant'' \<or> str_includes m ''unauthorized'', INVALID_CREDENTIALS),
     (\<lambda>m c. str_includes m ''permission'' \<or> code_is c 403, PERMISSION_DENIED),
     (\<lambda>m c. str_includes m ''verification'' \<or> str_includes m ''not completed'', VERIFICATION_REQUIRED),
     (\<lambda>m c. code_is c 429 \<or> str_includes m ''rate limit'', RATE_LIMIT),
     (\<lambda>m c. code_ge c 500 \<or> str_includes m ''server error'', SERVER_ERROR),
     (\<lambda>m c. str_includes m ''network'' \<or> str_includes m ''fetch'', NETWORK_ERROR),
     (\<lambda>m c. str_includes m ''email'' \<and> str_includes m ''invalid'', INVALID_EMAIL),
     (\<lambda>m c. str_includes m ''file'' \<and> str_includes m ''large'', FILE_TOO_LARGE),
     (\<lambda>m c. str_includes m ''required'', MISSING_REQUIRED_FIELD),
     (\<lambda>m c. str_includes m ''quota'' \<or> str_includes m ''QUOTA_BYTES'', QUOTA_EXCEEDED)]"

fun first_match :: "rule list \<Rightarrow> string \<Rightarrow> int option \<Rightarrow> string" where
  "first_match [] m c = ''unknown''"
| "first_match ((p, k) # rs) m c = (if p m c then k else first_match rs m c)"

text \<open>
  The kinds of the closed list of the specification (section 4.1, items 1 to 9), in the
  priority order in which it states them; item 8 names three kinds. The fallback
  \<open>unknown\<close> (item 10) is what \<open>first_match\<close> returns when no rule matches.
\<close>

definition spec_kind_order :: "string list" where
  "spec_kind_order =
     [''auth.token_expired'', ''auth.invalid_credentials'', ''auth.permission_denied'',
      ''auth.verification_required'', ''api.rate_limit'', ''api.server_error'',
      ''api.network_error'', ''validation.invalid_email'', ''validation.file_too_large'',
      ''validation.missing_field'', ''storage.quota_exceeded'']"


subsection \<open>classifyError on values of any type\<close>












subsection \<open>getUserMessage, getActionableMessage, createErrorResponse\<close>

text \<open>
  The three functions below are called, throughout the modelled code, with an \<open>Error\<close>
  object that a \<open>catch\<close> has just caught. On \<open>null\<close> and \<open>undefined\<close> the source of
  \<open>getUserMessage\<close> classifies the value \<open>unknown\<close> and then throws at \<open>error.message\<close>, and
  so does \<open>createErrorResponse\<close>; the equations below are those of the source for strings and
  objects, and their value at \<open>Nullish\<close> is used nowhere.
\<close>

definition getUserMessage :: "raw_error \<Rightarrow> string" where
  "getUserMessage error =
     (case RECOVERY_STRATEGIES (classifyError error) of
        Some strategy \<Rightarrow> userMessage strategy
      | None \<Rightarrow>
          let errorMessage = errorMessage_of error in
          if str_includes errorMessage ''network''
            then ''Network connection error. Please check your internet connection.''
          else if str_includes errorMessage ''file''
            then ''File processing error. Please try with a different file.''
          else ''An unexpected error occurred. Please try again.'')"

definition actionableMessages :: "string \<rightharpoonup> string" where
  "actionableMessages = map_of
     [(TOKEN_EXPIRED, ''Please click '' @ [CHR 0x22] @ ''Authenticate Gmail'' @ [CHR 0x22] @ '' to refresh your session.''),
      (VERIFICATION_REQUIRED, ''Please add yourself as a test user in Google Cloud Console.''),
      (FILE_TOO_LARGE, ''Please select a file smaller than 1MB.''),
      (INVALID_EMAIL, ''Please enter a valid email address.''),
      (QUOTA_EXCEEDED, ''Please select a smaller file or clear some storage.''),
      (NETWORK_ERROR, ''Please check your internet connection and try again.'')]"

definition getActionableMessage :: "raw_error \<Rightarrow> string" where
  "getActionableMessage error =
     (case actionableMessages (classifyError error) of
        Some m \<Rightarrow> if m = [] then ''Please try again or contact support if the problem persists.'' else m
      | None \<Rightarrow> ''Please try again or contact support if the problem persists.'')"

text \<open>
  The object \<open>createErrorResponse\<close> returns. The \<open>timestamp\<close> (wall-clock time) is not
  modelled; \<open>context\<close> is the list of the caller's key/value pairs.
\<close>

datatype ctx_value = CtxStr string | CtxNum nat | CtxBool bool

record error_response =
  success :: bool
  errorType :: string
  resp_message :: string
  actionableMessage :: string
  isRetryable :: bool
  resp_context :: "(string \<times> ctx_value) list"

definition createErrorResponse :: "raw_error \<Rightarrow> (string \<times> ctx_value) list \<Rightarrow> error_response" where
  "createErrorResponse error ctx =
     (let errorType = classifyError error;
          userMessage = getUserMessage error;
          actionableMessage = getActionableMessage error;
          isRetryable = isRetryableError errorType
      in \<lparr>success = False, errorType = errorType, resp_message = userMessage,
          actionableMessage = actionableMessage, isRetryable = isRetryable,
          resp_context = ctx\<rparr>)"

section \<open>Validator\<close>

text \<open>
  ECMAScript white space and line terminators among the 8-bit characters: what \<open>\s\<close>
  matches and \<open>trim\<close> strips.
\<close>

definition is_space :: "char \<Rightarrow> bool" where
  "is_space c = (c \<in> {CHR 0x09, CHR 0x0A, CHR 0x0B, CHR 0x0C, CHR 0x0D, CHR 0x20, CHR 0xA0})"

definition trim :: "string \<Rightarrow> string" where
  "trim s = rev (dropWhile is_space (rev (dropWhile is_space s)))"

text \<open>
  A regular expression that is a sequence of literal characters and one-or-more
  repetitions of a character class, matched against the whole string (\<open>^...$\<close>).
\<close>

datatype re_item = Lit char | Plus "char \<Rightarrow> bool"

fun re_match :: "re_item list \<Rightarrow> string \<Rightarrow> bool" where
  "re_match [] s = (s = [])"
| "re_match (Lit c # r) [] = False"
| "re_match (Lit c # r) (x # xs) = (x = c \<and> re_match r xs)"
| "re_match (Plus p # r) [] = False"
| "re_match (Plus p # r) (x # xs) = (p x \<and> (re_match r xs \<or> re_match (Plus p # r) xs))"

text \<open>\<open>[^\s@]\<close>\<close>

definition not_space_at :: "char \<Rightarrow> bool" where
  "not_space_at c = (\<not> is_space c \<and> c \<noteq> CHR ''@'')"

text \<open>\<open>/^[^\s@]+@[^\s@]+\.[^\s@]+$/\<close>\<close>

definition emailRegex :: "re_item list" where
  "emailRegex = [Plus not_space_at, Lit (CHR ''@''), Plus not_space_at, Lit (CHR ''.''), Plus not_space_at]"

definition isValidEmail :: "string \<Rightarrow> bool" where
  "isValidEmail email = (if email = [] then False else re_match emailRegex (trim email))"

text \<open>The stored template (\<open>emailConfig\<close>); an absent or empty property is \<open>''\<close>.\<close>

record email_config =
  cfg_subject :: string
  cfg_body :: string
  attachmentData :: string
  attachmentName :: string
  attachmentType :: string

definition validateEmailConfig :: "email_config \<Rightarrow> string list" where
  "validateEmailConfig config =
     (if cfg_subject config = [] \<or> trim (cfg_subject config) = []
        then [''Email subject is required''] else [])
     @ (if cfg_body config = [] \<or> trim (cfg_body config) = []
        then [''Email body is required''] else [])
     @ (if cfg_subject config \<noteq> [] \<and> length (cfg_subject config) > 200
        then [''Email subject is too long (max 200 characters)''] else [])
     @ (if cfg_body config \<noteq> [] \<and> length (cfg_body config) > 10000
        then [''Email body is too long (max 10,000 characters)''] else [])"

section \<open>GmailApiService: the message builder\<close>

record emailData =
  to :: string
  subject :: string
  body :: string

text \<open>An attachment; \<open>type\<close> is \<open>''\<close> when absent.\<close>

record attachment =
  name :: string
  data :: string
  type :: string

definition CRLF :: string where
  "CRLF = [CHR 0x0D, CHR 0x0A]"

text \<open>\<open>Array.prototype.join\<close>\<close>

fun array_join :: "string \<Rightarrow> string list \<Rightarrow> string" where
  "array_join sep [] = []"
| "array_join sep [x] = x"
| "array_join sep (x # y # ys) = x @ sep @ array_join sep (y # ys)"

definition attachment_part :: "string \<Rightarrow> attachment \<Rightarrow> string list" where
  "attachment_part boundary attachment =
     [''--'' @ boundary,
      ''Content-Type: '' @ (if type attachment = [] then ''application/octet-stream'' else type attachment),
      ''Content-Disposition: attachment; filename='' @ [CHR 0x22] @ name attachment @ [CHR 0x22],
      ''Content-Transfer-Encoding: base64'',
      [],
      data attachment,
      []]"

text \<open>
  The array \<open>message\<close> of \<open>_buildEmailMessage\<close> before it is joined. The boundary, which
  the source draws from \<open>Math.random\<close>, is a parameter.
\<close>

definition message_lines :: "string \<Rightarrow> emailData \<Rightarrow> attachment list \<Rightarrow> string list" where
  "message_lines boundary emailData attachments =
     (let hasAttachments = (attachments \<noteq> []) in
      [''To: '' @ to emailData,
       ''Subject: '' @ subject emailData,
       ''MIME-Version: 1.0'']
      @ [if hasAttachments
           then ''Content-Type: multipart/mixed; boundary='' @ [CHR 0x22] @ boundary @ [CHR 0x22]
           else ''Content-Type: text/plain; charset=UTF-8'']
      @ [[]]
      @ (if hasAttachments
           then [''--'' @ boundary,
                 ''Content-Type: text/plain; charset=UTF-8'',
                 [],
                 body emailData,
                 []]
                @ concat (map (attachment_part boundary) attachments)
                @ [''--'' @ boundary @ ''--'']
           else [body emailData]))"

definition buildEmailMessage :: "string \<Rightarrow> emailData \<Rightarrow> attachment list \<Rightarrow> string" where
  "buildEmailMessage boundary emailData attachments =
     array_join CRLF (message_lines boundary emailData attachments)"

subsection \<open>The lines of an envelope\<close>

text \<open>
  An envelope as a reader of the message format sees it: split into lines at every CR LF
  pair; its header lines are the lines up to the first blank line, and its body is what
  follows that blank line.
\<close>

fun split_crlf :: "string \<Rightarrow> string list" where
  "split_crlf [] = [[]]"
| "split_crlf [c] = [[c]]"
| "split_crlf (c # d # cs) =
     (if c = CHR 0x0D \<and> d = CHR 0x0A then [] # split_crlf cs
      else (case split_crlf (d # cs) of
              l # ls \<Rightarrow> (c # l) # ls
            | [] \<Rightarrow> [[c]]))"

definition header_lines :: "string \<Rightarrow> string list" where
  "header_lines envelope = takeWhile (\<lambda>l. l \<noteq> []) (split_crlf envelope)"

definition body_lines :: "string \<Rightarrow> string list" where
  "body_lines envelope = drop 1 (dropWhile (\<lambda>l. l \<noteq> []) (split_crlf envelope))"

text \<open>A field that holds no CR LF pair stays on one line of the envelope.\<close>

definition crlf_free :: "string \<Rightarrow> bool" where
  "crlf_free s = (\<not> str_includes s [CHR 0x0D, CHR 0x0A])"

subsection \<open>Reading an attachment back\<close>

text \<open>
  Modelled from the spec: the parser of the round-trip property, which the repository does
  not contain. The boundary markers, the delimiter line \<open>--boundary\<close> and the closing line
  \<open>--boundary--\<close>, divide the lines of the envelope into parts: part 0 is what precedes the
  first marker, part 1 is the text part, and the \<open>k\<close>-th attachment, counted from 0, is part
  \<open>k + 2\<close>. A part is a header block, the blank line that ends it, and a payload that runs to
  the next boundary marker. The attachment part is the one whose header block holds the
  line \<open>Content-Transfer-Encoding: base64\<close>; its data is the concatenation of the lines of
  its payload, line breaks being no part of base64 data. From a part without that header
  line nothing is read.
\<close>




definition is_boundary_marker :: "string \<Rightarrow> string \<Rightarrow> bool" where
  "is_boundary_marker boundary l = (l = ''--'' @ boundary \<or> l = ''--'' @ boundary @ ''--'')"







section \<open>The process state and the external collaborators\<close>

text \<open>
  Every call that leaves the process is recorded, in order, in the \<open>trace\<close>: the
  token-introspection request, the platform identity call (with its \<open>interactive\<close> flag),
  the removal of a cached token, the key-value store operations (by key), the POST to the
  mail endpoint (bearer token and envelope) and every timer the code waits on
  (milliseconds).
\<close>

datatype event =
    TokenInfo string
  | AcquireToken bool
  | RemoveCached string
  | StorageGet string
  | StorageSet string
  | StorageRemove string
  | MailPost string string
  | Sleep nat

text \<open>
  What the mail endpoint does with one POST: \<open>fetch\<close> rejects (with the message of its
  error), or answers with a non-2xx status (the status, \<open>errorData.error?.message\<close> or
  \<open>''\<close>, and the retry-after seconds that \<open>_extractRetryAfter\<close> finds, if any), or
  answers 2xx with \<open>{id, threadId}\<close>.
\<close>

datatype mail_reply =
    FetchRejects string
  | HttpError nat string "nat option"
  | HttpOk string string

text \<open>
  The collaborators answer as a function of the history so far. \<open>identity\<close> is
  \<open>chrome.identity.getAuthToken\<close>: \<open>Inl\<close> the message of \<open>chrome.runtime.lastError\<close>,
  \<open>Inr\<close> the token handed to the callback (\<open>''\<close> when none). \<open>tokeninfo\<close> is the
  introspection request: \<open>Inl\<close> when \<open>fetch\<close> rejects, \<open>Inr\<close> the \<open>response.ok\<close> flag.
  \<open>storage_fails\<close> says whether the next \<open>chrome.storage.local\<close> operation rejects.
  \<open>random_suffix\<close> is \<open>Math.random().toString(36).substr(2, 9)\<close>.
\<close>

record env =
  clientId :: string
  identity :: "event list \<Rightarrow> bool \<Rightarrow> string + string"
  tokeninfo :: "event list \<Rightarrow> string \<Rightarrow> string + bool"
  mail :: "event list \<Rightarrow> string \<Rightarrow> string \<Rightarrow> mail_reply"
  storage_fails :: "event list \<Rightarrow> bool"
  random_suffix :: "event list \<Rightarrow> string"

text \<open>
  The state the code shares across calls: \<open>AuthService.currentToken\<close>, the two keys of
  \<open>chrome.storage.local\<close> it uses, and \<open>EmailService.initialized\<close>.
\<close>

record world =
  currentToken :: "string option"
  stored_token :: "string option"
  stored_config :: "email_config option"
  initialized :: bool
  trace :: "event list"

definition emit :: "event \<Rightarrow> world \<Rightarrow> world" where
  "emit e w = w\<lparr>trace := trace w @ [e]\<rparr>"

text \<open>\<open>w'\<close> continues the trace of \<open>w\<close> with events of \<open>S\<close> only.\<close>

definition extends_by :: "event set \<Rightarrow> world \<Rightarrow> world \<Rightarrow> bool" where
  "extends_by S w w' = (\<exists>evs. trace w' = trace w @ evs \<and> set evs \<subseteq> S)"

text \<open>The send attempts in a trace: the POSTs to the mail endpoint.\<close>

fun is_post :: "event \<Rightarrow> bool" where
  "is_post (MailPost token envelope) = True"
| "is_post _ = False"

definition posts :: "world \<Rightarrow> nat" where
  "posts w = length (filter is_post (trace w))"

text \<open>A thrown exception is \<open>Inl\<close> of the error object; every throw site of the modelled
  code throws an \<open>Error\<close> object.\<close>

type_synonym 'a outcome = "(js_error + 'a) \<times> world"

section \<open>StorageService\<close>

definition AUTH_TOKEN :: string where "AUTH_TOKEN = ''gmail_access_token''"
definition EMAIL_CONFIG :: string where "EMAIL_CONFIG = ''emailConfig''"

definition StorageService_getAuthToken :: "env \<Rightarrow> world \<Rightarrow> string option outcome" where
  "StorageService_getAuthToken env w =
     (if storage_fails env (trace w)
        then (Inl (newError ''Failed to retrieve authentication token''), emit (StorageGet AUTH_TOKEN) w)
      else (Inr (case stored_token w of None \<Rightarrow> None
                 | Some t \<Rightarrow> if t = [] then None else Some t),
            emit (StorageGet AUTH_TOKEN) w))"

definition saveAuthToken :: "env \<Rightarrow> string \<Rightarrow> world \<Rightarrow> bool outcome" where
  "saveAuthToken env token w =
     (if token = [] then (Inl (newError ''Failed to save authentication token''), w)
      else if storage_fails env (trace w)
        then (Inl (newError ''Failed to save authentication token''), emit (StorageSet AUTH_TOKEN) w)
      else (Inr True, emit (StorageSet AUTH_TOKEN) (w\<lparr>stored_token := Some token\<rparr>)))"

definition clearAuthToken :: "env \<Rightarrow> world \<Rightarrow> bool outcome" where
  "clearAuthToken env w =
     (if storage_fails env (trace w)
        then (Inl (newError ''Failed to clear authentication token''), emit (StorageRemove AUTH_TOKEN) w)
      else (Inr True, emit (StorageRemove AUTH_TOKEN) (w\<lparr>stored_token := None\<rparr>)))"

definition getEmailConfig :: "env \<Rightarrow> world \<Rightarrow> email_config option outcome" where
  "getEmailConfig env w =
     (if storage_fails env (trace w)
        then (Inl (newError ''Failed to retrieve email configuration''), emit (StorageGet EMAIL_CONFIG) w)
      else (Inr (stored_config w), emit (StorageGet EMAIL_CONFIG) w))"


section \<open>AuthService\<close>

text \<open>
  The listeners of \<open>_notifyAuthStateChange\<close> are callbacks of the user interface whose
  exceptions the code catches; they are outside the model.
\<close>

definition validateToken :: "env \<Rightarrow> string \<Rightarrow> world \<Rightarrow> bool \<times> world" where
  "validateToken env token w =
     (if token = [] then (False, w)
      else case tokeninfo env (trace w) token of
             Inl err \<Rightarrow> (False, emit (TokenInfo token) w)
           | Inr ok \<Rightarrow> (ok, emit (TokenInfo token) w))"

definition AuthService_getAuthToken :: "env \<Rightarrow> bool \<Rightarrow> world \<Rightarrow> string outcome" where
  "AuthService_getAuthToken env interactive w =
     (case identity env (trace w) interactive of
        Inl lastError \<Rightarrow> (Inl (newError lastError), emit (AcquireToken interactive) w)
      | Inr token \<Rightarrow> (Inr token, emit (AcquireToken interactive) w))"

definition authenticate :: "env \<Rightarrow> bool \<Rightarrow> world \<Rightarrow> string outcome" where
  "authenticate env interactive w =
     (case (if clientId env = [] then (Inl (newError ''Google Client ID not configured''), w)
            else case AuthService_getAuthToken env interactive w of
                   (Inl err, w1) \<Rightarrow> (Inl err, w1)
                 | (Inr token, w1) \<Rightarrow>
                     if token \<noteq> [] then
                       (case saveAuthToken env token (w1\<lparr>currentToken := Some token\<rparr>) of
                          (Inl err, w2) \<Rightarrow> (Inl err, w2)
                        | (Inr ok, w2) \<Rightarrow> (Inr token, w2))
                     else (Inl (newError ''Authentication failed''), w1))
      of (Inr token, w') \<Rightarrow> (Inr token, w')
       | (Inl error, w') \<Rightarrow>
           if classifyError (ErrObj error) = VERIFICATION_REQUIRED
             then (Inl (newError ''App verification required. Please add yourself as a test user in Google Cloud Console.''), w')
           else (Inl (newError (''Authentication failed: '' @ getUserMessage (ErrObj error))), w'))"

definition clearTokens :: "env \<Rightarrow> world \<Rightarrow> bool outcome" where
  "clearTokens env w =
     (let w1 = (case currentToken w of
                  None \<Rightarrow> w
                | Some t \<Rightarrow> if t = [] then w else emit (RemoveCached t) w)
      in case clearAuthToken env w1 of
           (Inl err, w2) \<Rightarrow> (Inl (newError ''Failed to clear tokens''), w2)
         | (Inr ok, w2) \<Rightarrow> (Inr True, w2\<lparr>currentToken := None\<rparr>))"

definition refreshToken :: "env \<Rightarrow> world \<Rightarrow> string outcome" where
  "refreshToken env w =
     (case (case clearTokens env w of
              (Inl err, w1) \<Rightarrow> (Inl err, w1)
            | (Inr ok, w1) \<Rightarrow> authenticate env False w1)
      of (Inr newToken, w2) \<Rightarrow> (Inr newToken, w2)
       | (Inl error, w2) \<Rightarrow>
           (case authenticate env True w2 of
              (Inr interactiveToken, w3) \<Rightarrow> (Inr interactiveToken, w3)
            | (Inl interactiveError, w3) \<Rightarrow>
                (Inl (newError (''Token refresh failed: '' @ getUserMessage (ErrObj interactiveError))), w3)))"

text \<open>
  \<open>getValidToken\<close>, in the order of its \<open>try\<close> block: the stored token (from the comment
  \<open>Try to get token from storage\<close> on), then the whole body, then the \<open>catch\<close> that
  rewraps any error.
\<close>

definition getValidToken_stored :: "env \<Rightarrow> world \<Rightarrow> string outcome" where
  "getValidToken_stored env w =
     (case StorageService_getAuthToken env w of
        (Inl err, w1) \<Rightarrow> (Inl err, w1)
      | (Inr None, w1) \<Rightarrow> authenticate env True w1
      | (Inr (Some storedToken), w1) \<Rightarrow>
          (case validateToken env storedToken w1 of
             (True, w2) \<Rightarrow> (Inr storedToken, w2\<lparr>currentToken := Some storedToken\<rparr>)
           | (False, w2) \<Rightarrow> authenticate env True w2))"

definition getValidToken_body :: "env \<Rightarrow> world \<Rightarrow> string outcome" where
  "getValidToken_body env w =
     (case currentToken w of
        None \<Rightarrow> getValidToken_stored env w
      | Some t \<Rightarrow>
          (case validateToken env t w of
             (True, w1) \<Rightarrow> (Inr t, w1)
           | (False, w1) \<Rightarrow> getValidToken_stored env w1))"

definition getValidToken :: "env \<Rightarrow> world \<Rightarrow> string outcome" where
  "getValidToken env w =
     (case getValidToken_body env w of
        (Inr token, w') \<Rightarrow> (Inr token, w')
      | (Inl error, w') \<Rightarrow>
          (Inl (newError (''Failed to get valid token: '' @ getUserMessage (ErrObj error))), w'))"



definition rewrap :: "string outcome \<Rightarrow> string outcome" where
  "rewrap r =
     (case r of
        (Inr token, w') \<Rightarrow> (Inr token, w')
      | (Inl error, w') \<Rightarrow>
          (Inl (newError (''Failed to get valid token: '' @ getUserMessage (ErrObj error))), w'))"

definition handleAuthError :: "env \<Rightarrow> js_error \<Rightarrow> world \<Rightarrow> string outcome" where
  "handleAuthError env error w =
     (let errorType = classifyError (ErrObj error) in
      if errorType = TOKEN_EXPIRED then refreshToken env w
      else if errorType = INVALID_CREDENTIALS then
        (case clearTokens env w of
           (Inl err, w1) \<Rightarrow> (Inl err, w1)
         | (Inr ok, w1) \<Rightarrow> authenticate env True w1)
      else if errorType = PERMISSION_DENIED then
        (Inl (newError ''Permission denied. Please check your Google Cloud Console settings.''), w)
      else (Inl error, w))"

text \<open>\<open>AuthService.initialize\<close> catches everything and returns a flag.\<close>

definition AuthService_initialize :: "env \<Rightarrow> world \<Rightarrow> bool \<times> world" where
  "AuthService_initialize env w =
     (case StorageService_getAuthToken env w of
        (Inl err, w1) \<Rightarrow> (False, w1)
      | (Inr None, w1) \<Rightarrow> (True, w1)
      | (Inr (Some storedToken), w1) \<Rightarrow>
          (case validateToken env storedToken w1 of
             (True, w2) \<Rightarrow> (True, w2\<lparr>currentToken := Some storedToken\<rparr>)
           | (False, w2) \<Rightarrow>
               (case clearAuthToken env w2 of
                  (Inl err, w3) \<Rightarrow> (False, w3)
                | (Inr ok, w3) \<Rightarrow> (True, w3))))"

section \<open>Two calls of getValidToken in one event loop\<close>

text \<open>
  JavaScript runs one call at a time and switches between calls only where a call awaits.
  \<open>getValidToken\<close> is written here as a machine that stops at each await on an external
  operation: every state but the first and last names the operation just awaited and holds
  its result. One step resumes the call with that result, runs it to its next external
  operation, performs that operation (on the shared state, recording it in the trace) and
  stops again. The \<open>catch\<close> blocks of \<open>authenticate\<close> and \<open>getValidToken\<close> are the two
  functions below. The code keeps no record of an acquisition in flight. After the
  in-memory token has verified, the call returns \<open>this.currentToken\<close> as it is when the call
  resumes, which another call may have replaced in the meantime (a \<open>null\<close> there is written
  \<open>''\<close>, as for the token of \<open>identity\<close>).
\<close>

definition authenticate_catch :: "js_error \<Rightarrow> js_error" where
  "authenticate_catch error =
     (if classifyError (ErrObj error) = VERIFICATION_REQUIRED
        then newError ''App verification required. Please add yourself as a test user in Google Cloud Console.''
      else newError (''Authentication failed: '' @ getUserMessage (ErrObj error)))"

definition getValidToken_catch :: "js_error \<Rightarrow> js_error" where
  "getValidToken_catch error =
     newError (''Failed to get valid token: '' @ getUserMessage (ErrObj error))"

datatype gvt_pc =
    GVT_Start
  | GVT_ValidatedMemory string bool
  | GVT_Loaded "js_error + string option"
  | GVT_ValidatedStored string bool
  | GVT_Acquired "js_error + string"
  | GVT_Saved string "js_error + bool"
  | GVT_Done "js_error + string"

definition gvt_load :: "env \<Rightarrow> world \<Rightarrow> gvt_pc \<times> world" where
  "gvt_load env w =
     (case StorageService_getAuthToken env w of (r, w1) \<Rightarrow> (GVT_Loaded r, w1))"

definition gvt_acquire :: "env \<Rightarrow> world \<Rightarrow> gvt_pc \<times> world" where
  "gvt_acquire env w =
     (if clientId env = []
        then (GVT_Done (Inl (getValidToken_catch
                (authenticate_catch (newError ''Google Client ID not configured'')))), w)
      else case AuthService_getAuthToken env True w of (r, w1) \<Rightarrow> (GVT_Acquired r, w1))"

fun gvt_step :: "env \<Rightarrow> gvt_pc \<Rightarrow> world \<Rightarrow> gvt_pc \<times> world" where
  "gvt_step env GVT_Start w =
     (case currentToken w of
        None \<Rightarrow> gvt_load env w
      | Some t \<Rightarrow>
          if t = [] then gvt_load env w
          else case validateToken env t w of (v, w1) \<Rightarrow> (GVT_ValidatedMemory t v, w1))"
| "gvt_step env (GVT_ValidatedMemory t v) w =
     (if v then (GVT_Done (Inr (case currentToken w of None \<Rightarrow> [] | Some t' \<Rightarrow> t')), w)
      else gvt_load env w)"
| "gvt_step env (GVT_Loaded r) w =
     (case r of
        Inl err \<Rightarrow> (GVT_Done (Inl (getValidToken_catch err)), w)
      | Inr None \<Rightarrow> gvt_acquire env w
      | Inr (Some s) \<Rightarrow>
          (case validateToken env s w of (v, w1) \<Rightarrow> (GVT_ValidatedStored s v, w1)))"
| "gvt_step env (GVT_ValidatedStored s v) w =
     (if v then (GVT_Done (Inr s), w\<lparr>currentToken := Some s\<rparr>) else gvt_acquire env w)"
| "gvt_step env (GVT_Acquired r) w =
     (case r of
        Inl err \<Rightarrow> (GVT_Done (Inl (getValidToken_catch (authenticate_catch err))), w)
      | Inr token \<Rightarrow>
          if token \<noteq> [] then
            (case saveAuthToken env token (w\<lparr>currentToken := Some token\<rparr>) of
               (r2, w1) \<Rightarrow> (GVT_Saved token r2, w1))
          else (GVT_Done (Inl (getValidToken_catch
                  (authenticate_catch (newError ''Authentication failed'')))), w))"
| "gvt_step env (GVT_Saved token r2) w =
     (case r2 of
        Inl err \<Rightarrow> (GVT_Done (Inl (getValidToken_catch (authenticate_catch err))), w)
      | Inr ok \<Rightarrow> (GVT_Done (Inr token), w))"
| "gvt_step env (GVT_Done r) w = (GVT_Done r, w)"

text \<open>One call running alone for \<open>n\<close> steps.\<close>

fun gvt_run :: "env \<Rightarrow> nat \<Rightarrow> gvt_pc \<times> world \<Rightarrow> gvt_pc \<times> world" where
  "gvt_run env 0 s = s"
| "gvt_run env (Suc n) (pc, w) = gvt_run env n (gvt_step env pc w)"

text \<open>Two calls; the schedule says which call resumes next.\<close>

fun run2 :: "env \<Rightarrow> bool list \<Rightarrow> gvt_pc \<times> gvt_pc \<times> world \<Rightarrow> gvt_pc \<times> gvt_pc \<times> world" where
  "run2 env [] s = s"
| "run2 env (False # sched) (p0, p1, w) =
     (case gvt_step env p0 w of (q0, w') \<Rightarrow> run2 env sched (q0, p1, w'))"
| "run2 env (True # sched) (p0, p1, w) =
     (case gvt_step env p1 w of (q1, w') \<Rightarrow> run2 env sched (p0, q1, w'))"

text \<open>The interactive-acquisition invocations on the identity provider made so far.\<close>

definition interactive_acquisitions :: "world \<Rightarrow> nat" where
  "interactive_acquisitions w = count_list (trace w) (AcquireToken True)"

fun is_done :: "gvt_pc \<Rightarrow> bool" where
  "is_done (GVT_Done r) = True"
| "is_done _ = False"

text \<open>
  A call that has found no credential in memory or in the store (or whose read of the store
  was rejected), or is already past that point; and the number of interactive acquisitions
  such a call has yet to start when a client id is configured.
\<close>

fun committed :: "gvt_pc \<Rightarrow> bool" where
  "committed (GVT_Loaded (Inr None)) = True"
| "committed (GVT_Loaded (Inl err)) = True"
| "committed (GVT_Acquired r) = True"
| "committed (GVT_Saved token r) = True"
| "committed (GVT_Done r) = True"
| "committed _ = False"

fun pending :: "gvt_pc \<Rightarrow> nat" where
  "pending (GVT_Loaded (Inr None)) = 1"
| "pending _ = 0"

section \<open>GmailApiService: the transport\<close>

text \<open>The fields \<open>this.maxRetries\<close> and \<open>this.rateLimitDelay\<close> set by the constructor.\<close>

definition maxRetries_svc :: nat where "maxRetries_svc = 3"
definition rateLimitDelay :: nat where "rateLimitDelay = 1000"

text \<open>Decimal digits of a number, as a template literal prints it.\<close>

fun digits_of :: "nat \<Rightarrow> string" where
  "digits_of n =
     (if n < 10 then [''0123456789'' ! n]
      else digits_of (n div 10) @ [''0123456789'' ! (n mod 10)])"

text \<open>
  The error object \<open>_makeApiRequest\<close> throws carries, besides the classifier's
  properties, the response it came from; \<open>_extractRetryAfter\<close> reads the retry-after
  seconds from it.
\<close>

record api_error = js_error +
  retry_after :: "nat option"

definition plain :: "js_error \<Rightarrow> api_error" where
  "plain e = js_error.extend e \<lparr>retry_after = None\<rparr>"

text \<open>
  \<open>_makeApiRequest\<close>. The envelope is recorded as built; its base64url encoding is a
  fixed re-coding of the request body.
\<close>

definition makeApiRequest :: "env \<Rightarrow> string \<Rightarrow> string \<Rightarrow> world \<Rightarrow> ((api_error + string \<times> string) \<times> world)" where
  "makeApiRequest env token emailMessage w =
     (case mail env (trace w) token emailMessage of
        FetchRejects msg \<Rightarrow> (Inl (plain (newError msg)), emit (MailPost token emailMessage) w)
      | HttpError st msg ra \<Rightarrow>
          (Inl \<lparr>message = Some (if msg = [] then ''API request failed with status '' @ digits_of st else msg),
                code = None, status = Some (int st), retry_after = ra\<rparr>,
           emit (MailPost token emailMessage) w)
      | HttpOk mid tid \<Rightarrow> (Inr (mid, tid), emit (MailPost token emailMessage) w))"

text \<open>What \<open>sendEmail\<close> resolves to.\<close>

datatype send_result =
    Sent string string
  | Failed error_response

text \<open>
  \<open>sendEmail\<close>, \<open>_handleApiError\<close>, \<open>_handleRateLimit\<close> and \<open>_retryWithBackoff\<close> call each
  other, and nothing in the source bounds the chain. The calls of \<open>sendEmail\<close> are counted
  down by a fuel argument: the first component of the result is \<open>None\<close> when the fuel ran
  out before the call returned, and the state reached is returned with it. The three helpers
  take the entry point (\<open>this.sendEmail\<close>) they call back as \<open>self\<close>.
\<close>

type_synonym sender =
  "emailData \<Rightarrow> attachment list \<Rightarrow> world \<Rightarrow> (js_error + send_result) option \<times> world"

function retryWithBackoff ::
  "sender \<Rightarrow> emailData \<Rightarrow> attachment list \<Rightarrow> nat \<Rightarrow> world \<Rightarrow> (js_error + send_result) option \<times> world" where
  "retryWithBackoff self emailData attachments attempt w =
     (if attempt > maxRetries_svc
        then (Some (Inr (Failed (createErrorResponse
                (ErrObj (newError ''Maximum retry attempts exceeded''))
                [(''attempts'', CtxNum attempt)]))), w)
      else
        (case self emailData attachments (emit (Sleep (2 ^ attempt * 1000)) w) of
           (None, w1) \<Rightarrow> (None, w1)
         | (Some (Inr result), w1) \<Rightarrow> (Some (Inr result), w1)
         | (Some (Inl error), w1) \<Rightarrow> retryWithBackoff self emailData attachments (attempt + 1) w1))"
  by pat_completeness auto
termination
  by (relation "measure (\<lambda>(self, emailData, attachments, attempt, w). maxRetries_svc + 1 - attempt)") auto

definition extractRetryAfter :: "api_error \<Rightarrow> nat option" where
  "extractRetryAfter error =
     (case retry_after error of None \<Rightarrow> None | Some secs \<Rightarrow> Some (secs * 1000))"

definition handleRateLimit ::
  "sender \<Rightarrow> api_error \<Rightarrow> emailData \<Rightarrow> attachment list \<Rightarrow> world \<Rightarrow> (js_error + send_result) option \<times> world" where
  "handleRateLimit self error emailData attachments w =
     (let retryAfter = (case extractRetryAfter error of
                          None \<Rightarrow> rateLimitDelay
                        | Some ms \<Rightarrow> if ms = 0 then rateLimitDelay else ms)
      in retryWithBackoff self emailData attachments 1 (emit (Sleep retryAfter) w))"

definition handleApiError ::
  "sender \<Rightarrow> env \<Rightarrow> api_error \<Rightarrow> emailData \<Rightarrow> attachment list \<Rightarrow> world \<Rightarrow> (js_error + send_result) option \<times> world" where
  "handleApiError self env error emailData attachments w =
     (let errorType = classifyError (ErrObj (js_error.truncate error)) in
      if errorType = TOKEN_EXPIRED then
        (case handleAuthError env (js_error.truncate error) w of
           (Inl authError, w1) \<Rightarrow> (Some (Inr (Failed (createErrorResponse (ErrObj authError) []))), w1)
         | (Inr token, w1) \<Rightarrow>
             (case self emailData attachments w1 of
                (Some (Inl authError), w2) \<Rightarrow>
                  (Some (Inr (Failed (createErrorResponse (ErrObj authError) []))), w2)
              | r \<Rightarrow> r))
      else if errorType = RATE_LIMIT then handleRateLimit self error emailData attachments w
      else if errorType = NETWORK_ERROR then retryWithBackoff self emailData attachments 1 w
      else (Some (Inr (Failed (createErrorResponse (ErrObj (js_error.truncate error)) []))), w))"

primrec sendEmail ::
  "nat \<Rightarrow> env \<Rightarrow> emailData \<Rightarrow> attachment list \<Rightarrow> world \<Rightarrow> (js_error + send_result) option \<times> world" where
  "sendEmail 0 env emailData attachments w = (None, w)"
| "sendEmail (Suc fuel) env emailData attachments w =
     (case getValidToken env w of
        (Inl error, w1) \<Rightarrow> handleApiError (sendEmail fuel env) env (plain error) emailData attachments w1
      | (Inr token, w1) \<Rightarrow>
          (case makeApiRequest env token
                  (buildEmailMessage (''boundary_'' @ random_suffix env (trace w1)) emailData attachments) w1 of
             (Inl error, w2) \<Rightarrow> handleApiError (sendEmail fuel env) env error emailData attachments w2
           | (Inr (mid, tid), w2) \<Rightarrow> (Some (Inr (Sent mid tid)), w2)))"

text \<open>A call that has not thrown: it is still running, or it has returned a value.\<close>

definition no_throw :: "('a + 'b) option \<times> world \<Rightarrow> bool" where
  "no_throw r = (case fst r of Some (Inl e) \<Rightarrow> False | _ \<Rightarrow> True)"

section \<open>EmailService\<close>

text \<open>What \<open>sendEmailWithAttachment\<close> resolves to: the success object (message id and
  recipient) or the error response.\<close>

datatype email_result =
    EmailSent string string
  | EmailFailed error_response

definition EmailService_initialize :: "env \<Rightarrow> world \<Rightarrow> bool \<times> world" where
  "EmailService_initialize env w =
     (case AuthService_initialize env w of (ok, w1) \<Rightarrow> (True, w1\<lparr>initialized := True\<rparr>))"

definition prepareEmailData :: "string \<Rightarrow> email_config \<Rightarrow> emailData" where
  "prepareEmailData recipient config =
     \<lparr>to = recipient, subject = cfg_subject config, body = cfg_body config\<rparr>"

definition prepareAttachments :: "email_config \<Rightarrow> attachment list" where
  "prepareAttachments config =
     (if attachmentData config \<noteq> [] \<and> attachmentName config \<noteq> []
        then [\<lparr>name = attachmentName config, data = attachmentData config,
               type = (if attachmentType config = [] then ''application/octet-stream''
                       else attachmentType config)\<rparr>]
      else [])"

text \<open>The \<open>try\<close> block of \<open>sendEmailWithAttachment\<close> after the initialisation.\<close>

definition sendEmailWithAttachment_body ::
  "nat \<Rightarrow> env \<Rightarrow> string \<Rightarrow> world \<Rightarrow> (js_error + email_result) option \<times> world" where
  "sendEmailWithAttachment_body fuel env recipient w =
     (if \<not> isValidEmail recipient
        then (Some (Inl (newError ''Invalid recipient email address'')), w)
      else
        (case getEmailConfig env w of
           (Inl err, w1) \<Rightarrow> (Some (Inl err), w1)
         | (Inr None, w1) \<Rightarrow>
             (Some (Inl (newError ''No email configuration found. Please configure your email template first.'')), w1)
         | (Inr (Some config), w1) \<Rightarrow>
             (let configErrors = validateEmailConfig config in
              if configErrors \<noteq> []
                then (Some (Inl (newError (''Invalid email configuration: '' @ array_join '', '' configErrors))), w1)
              else
                (case sendEmail fuel env (prepareEmailData recipient config) (prepareAttachments config) w1 of
                   (None, w2) \<Rightarrow> (None, w2)
                 | (Some (Inl err), w2) \<Rightarrow> (Some (Inl err), w2)
                 | (Some (Inr (Sent mid tid)), w2) \<Rightarrow> (Some (Inr (EmailSent mid recipient)), w2)
                 | (Some (Inr (Failed resp)), w2) \<Rightarrow>
                     (Some (Inl (newError (if resp_message resp = [] then ''Failed to send email''
                                           else resp_message resp))), w2)))))"

definition sendEmailWithAttachment ::
  "nat \<Rightarrow> env \<Rightarrow> string \<Rightarrow> world \<Rightarrow> (js_error + email_result) option \<times> world" where
  "sendEmailWithAttachment fuel env recipient w =
     (let w0 = (if initialized w then w else snd (EmailService_initialize env w)) in
      case sendEmailWithAttachment_body fuel env recipient w0 of
        (None, w1) \<Rightarrow> (None, w1)
      | (Some (Inr result), w1) \<Rightarrow> (Some (Inr result), w1)
      | (Some (Inl error), w1) \<Rightarrow>
          (Some (Inr (EmailFailed (createErrorResponse (ErrObj error)
                                     [(''recipient'', CtxStr recipient)]))), w1))"

section \<open>Concrete collaborators and states\<close>

text \<open>
  An identity provider that answers a non-interactive request with one token and an
  interactive request with another; only \<open>token-live\<close> passes introspection.
\<close>

definition env_consent :: env where
  "env_consent =
     \<lparr>clientId = ''client-id.apps.googleusercontent.com'',
      identity = (\<lambda>h interactive. if interactive then Inr ''token-from-consent'' else Inr ''token-silent''),
      tokeninfo = (\<lambda>h t. Inr (t = ''token-live'')),
      mail = (\<lambda>h t m. HttpOk ''m1'' ''t1''),
      storage_fails = (\<lambda>h. False),
      random_suffix = (\<lambda>h. ''k3j9x0a1b'')\<rparr>"

text \<open>The same provider with a store that accepts two operations and rejects every later
  one.\<close>

definition env_save_fails :: env where
  "env_save_fails = env_consent\<lparr>storage_fails := (\<lambda>h. 2 \<le> length h)\<rparr>"

definition w_empty :: world where
  "w_empty = \<lparr>currentToken = None, stored_token = None, stored_config = None,
              initialized = True, trace = []\<rparr>"



text \<open>
  A mail endpoint that cannot be reached: every \<open>fetch\<close> to it rejects with
  \<open>Failed to fetch\<close>, while the token verifies. A stored template without attachment, and
  a state with a live token in memory.
\<close>

definition env_offline :: env where
  "env_offline =
     \<lparr>clientId = ''client-id.apps.googleusercontent.com'',
      identity = (\<lambda>h interactive. Inr ''token-live''),
      tokeninfo = (\<lambda>h t. Inr True),
      mail = (\<lambda>h t m. FetchRejects ''Failed to fetch''),
      storage_fails = (\<lambda>h. False),
      random_suffix = (\<lambda>h. ''k3j9x0a1b'')\<rparr>"

definition config_hi :: email_config where
  "config_hi = \<lparr>cfg_subject = ''Hi'', cfg_body = ''Hello'', attachmentData = [],
                attachmentName = [], attachmentType = []\<rparr>"

definition w_ready :: world where
  "w_ready = \<lparr>currentToken = Some ''token-live'', stored_token = Some ''token-live'',
              stored_config = Some config_hi, initialized = True, trace = []\<rparr>"

section \<open>Properties of the error classifier\<close>

lemmas ERROR_TYPES =
  TOKEN_EXPIRED_def INVALID_CREDENTIALS_def PERMISSION_DENIED_def VERIFICATION_REQUIRED_def
  INVALID_EMAIL_def MISSING_REQUIRED_FIELD_def FILE_TOO_LARGE_def NETWORK_ERROR_def
  RATE_LIMIT_def SERVER_ERROR_def QUOTA_EXCEEDED_def

text \<open>\<open>str_includes\<close> is the substring relation.\<close>

lemma str_includes_iff: "str_includes s sub \<longleftrightarrow> (\<exists>p q. s = p @ sub @ q)"
proof (induction s)
  case Nil
  then show ?case by auto
next
  case (Cons c cs)
  show ?case
  proof
    assume "str_includes (c # cs) sub"
    then consider "prefix sub (c # cs)" | "str_includes cs sub" by auto
    then show "\<exists>p q. c # cs = p @ sub @ q"
    proof cases
      case 1
      then obtain q where "c # cs = sub @ q" by (auto simp: prefix_def)
      then have "c # cs = [] @ sub @ q" by simp
      then show ?thesis by blast
    next
      case 2
      with Cons.IH obtain p q where "cs = p @ sub @ q" by blast
      then have "c # cs = (c # p) @ sub @ q" by simp
      then show ?thesis by blast
    qed
  next
    assume "\<exists>p q. c # cs = p @ sub @ q"
    then obtain p q where pq: "c # cs = p @ sub @ q" by blast
    show "str_includes (c # cs) sub"
    proof (cases p)
      case Nil
      with pq have "prefix sub (c # cs)" by (simp add: prefix_def)
      then show ?thesis by simp
    next
      case (Cons a p')
      with pq have "cs = p' @ sub @ q" by simp
      with Cons.IH have "str_includes cs sub" by blast
      then show ?thesis by simp
    qed
  qed
qed

lemma classifyError_first_match:
  "classifyError error =
     (if falsy error then ''unknown''
      else first_match classify_rules (errorMessage_of error) (errorCode_of error))"
  by (simp add: classifyError_def classify_rules_def Let_def)

text \<open>
  Claim C3. Every raw error whose message text contains both \<open>token\<close> and \<open>expired\<close> is
  classified \<open>auth.token_expired\<close>, and the recovery strategy recorded for that kind has
  \<open>autoRetry = true\<close> and \<open>maxRetries = 1\<close>, so that the kind is retryable.
\<close>

theorem classify_token_expired:
  assumes "str_includes (errorMessage_of error) ''token''"
    and "str_includes (errorMessage_of error) ''expired''"
  shows "classifyError error = ''auth.token_expired''
     \<and> (\<exists>s. RECOVERY_STRATEGIES ''auth.token_expired'' = Some s
            \<and> autoRetry s = True \<and> maxRetries s = Some 1)
     \<and> isRetryableError (classifyError error) = True"
proof -
  have "\<not> falsy error" using assms(1) by (cases error) auto
  then have kind: "classifyError error = ''auth.token_expired''"
    using assms by (simp add: classifyError_def TOKEN_EXPIRED_def)
  have policy: "\<exists>s. RECOVERY_STRATEGIES ''auth.token_expired'' = Some s
            \<and> autoRetry s = True \<and> maxRetries s = Some 1"
    by (simp add: RECOVERY_STRATEGIES_def ERROR_TYPES)
  have "isRetryableError ''auth.token_expired'' = True"
    by (simp add: isRetryableError_def RECOVERY_STRATEGIES_def ERROR_TYPES)
  with kind policy show ?thesis by simp
qed

theorem classify_token_expired_witness:
  "str_includes ''The access token has expired'' ''token''
   \<and> str_includes ''The access token has expired'' ''expired''
   \<and> classifyError (ErrObj \<lparr>message = Some ''The access token has expired'', code = None,
                            status = Some 401\<rparr>) = ''auth.token_expired''
   \<and> (\<exists>s. RECOVERY_STRATEGIES ''auth.token_expired'' = Some s
          \<and> autoRetry s = True \<and> maxRetries s = Some 1)"
proof -
  let ?e = "ErrObj \<lparr>message = Some ''The access token has expired'', code = None,
                    status = Some 401\<rparr>"
  have h1: "str_includes (errorMessage_of ?e) ''token''" by simp
  have h2: "str_includes (errorMessage_of ?e) ''expired''" by simp
  note c = classify_token_expired [OF h1 h2]
  from c have "classifyError ?e = ''auth.token_expired''" by blast
  moreover from c have "\<exists>s. RECOVERY_STRATEGIES ''auth.token_expired'' = Some s
          \<and> autoRetry s = True \<and> maxRetries s = Some 1" by blast
  ultimately show ?thesis using h1 h2 by simp
qed

lemma first_match_least:
  "i < length rs \<Longrightarrow> fst (rs ! i) m c \<Longrightarrow> (\<forall>j<i. \<not> fst (rs ! j) m c)
   \<Longrightarrow> first_match rs m c = snd (rs ! i)"
proof (induction rs arbitrary: i)
  case Nil
  then show ?case by simp
next
  case (Cons r rs)
  obtain p k where r: "r = (p, k)" by (cases r)
  show ?case
  proof (cases i)
    case 0
    with Cons.prems r show ?thesis by simp
  next
    case (Suc i')
    from Cons.prems(3) Suc have "\<not> fst ((r # rs) ! 0) m c" by blast
    with r have np: "\<not> p m c" by simp
    have "\<forall>j<i'. \<not> fst (rs ! j) m c"
    proof (intro allI impI)
      fix j assume "j < i'"
      then have "Suc j < i" using Suc by simp
      with Cons.prems(3) have "\<not> fst ((r # rs) ! Suc j) m c" by blast
      then show "\<not> fst (rs ! j) m c" by simp
    qed
    with Cons.IH [of i'] Cons.prems(1,2) Suc have "first_match rs m c = snd (rs ! i')" by simp
    with r np Suc show ?thesis by simp
  qed
qed

lemma classify_rules_order: "map snd classify_rules = spec_kind_order"
  by (simp add: classify_rules_def spec_kind_order_def ERROR_TYPES)

text \<open>
  Claim C4, as amended. The classifier evaluates its predicates in the fixed priority order
  of the closed list of the specification, first match winning: the kinds of its rules, in
  the order of the if-chain, are the list of the specification; the result is the first
  match over the rules; and it is the kind at the least position whose predicate holds. A
  raw error whose message contains both \<open>permission\<close> and \<open>network\<close> is never classified
  \<open>api.network_error\<close>: it is \<open>auth.permission_denied\<close> unless one of the two rules of higher
  priority matches first, which then gives \<open>auth.token_expired\<close> (message contains \<open>token\<close>
  and \<open>expired\<close>) or \<open>auth.invalid_credentials\<close> (message contains \<open>invalid_grant\<close> or
  \<open>unauthorized\<close>).
\<close>

theorem classify_permission_network:
  "map snd classify_rules = spec_kind_order
   \<and> classifyError error =
        (if falsy error then ''unknown''
         else first_match classify_rules (errorMessage_of error) (errorCode_of error))
   \<and> (\<not> falsy error \<and> i < length classify_rules
        \<and> fst (classify_rules ! i) (errorMessage_of error) (errorCode_of error)
        \<and> (\<forall>j<i. \<not> fst (classify_rules ! j) (errorMessage_of error) (errorCode_of error))
      \<longrightarrow> classifyError error = spec_kind_order ! i)
   \<and> (str_includes (errorMessage_of error) ''permission''
        \<and> str_includes (errorMessage_of error) ''network''
      \<longrightarrow> classifyError error =
            (if str_includes (errorMessage_of error) ''token''
                \<and> str_includes (errorMessage_of error) ''expired''
               then ''auth.token_expired''
             else if str_includes (errorMessage_of error) ''invalid_grant''
                \<or> str_includes (errorMessage_of error) ''unauthorized''
               then ''auth.invalid_credentials''
             else ''auth.permission_denied'')
          \<and> classifyError error \<noteq> ''api.network_error'')"
proof -
  let ?m = "errorMessage_of error" and ?c = "errorCode_of error"
  have least: "classifyError error = spec_kind_order ! i"
    if "\<not> falsy error" "i < length classify_rules" "fst (classify_rules ! i) ?m ?c"
      "\<forall>j<i. \<not> fst (classify_rules ! j) ?m ?c"
  proof -
    have "first_match classify_rules ?m ?c = snd (classify_rules ! i)"
      using that(2,3,4) by (rule first_match_least)
    also have "\<dots> = map snd classify_rules ! i" using that(2) by simp
    finally show ?thesis using that(1) by (simp add: classifyError_first_match classify_rules_order)
  qed
  have perm: "classifyError error =
            (if str_includes ?m ''token'' \<and> str_includes ?m ''expired''
               then ''auth.token_expired''
             else if str_includes ?m ''invalid_grant'' \<or> str_includes ?m ''unauthorized''
               then ''auth.invalid_credentials''
             else ''auth.permission_denied'')
          \<and> classifyError error \<noteq> ''api.network_error''"
    if h: "str_includes ?m ''permission''"
  proof -
    have nf: "\<not> falsy error" using h by (cases error) auto
    have eq: "classifyError error =
            (if str_includes ?m ''token'' \<and> str_includes ?m ''expired''
               then ''auth.token_expired''
             else if str_includes ?m ''invalid_grant'' \<or> str_includes ?m ''unauthorized''
               then ''auth.invalid_credentials''
             else ''auth.permission_denied'')"
      using nf h by (simp add: classifyError_def Let_def ERROR_TYPES)
    moreover from eq have "classifyError error \<noteq> ''api.network_error''"
      by (simp split: if_splits)
    ultimately show ?thesis by blast
  qed
  show ?thesis
    using classify_rules_order classifyError_first_match [of error] least perm by blast
qed

theorem classify_permission_network_witness:
  "str_includes ''permission check failed: network unreachable'' ''permission''
   \<and> str_includes ''permission check failed: network unreachable'' ''network''
   \<and> classifyError (ErrObj (newError ''permission check failed: network unreachable''))
       = ''auth.permission_denied''
   \<and> classifyError (ErrObj (newError ''permission check failed: network unreachable''))
       = spec_kind_order ! 2"
proof -
  let ?e = "ErrObj (newError ''permission check failed: network unreachable'')"
  have h1: "str_includes (errorMessage_of ?e) ''permission''"
    by (simp add: newError_def)
  have h2: "str_includes (errorMessage_of ?e) ''network''"
    by (simp add: newError_def)
  have h3: "\<not> falsy ?e \<and> 2 < length classify_rules
      \<and> fst (classify_rules ! 2) (errorMessage_of ?e) (errorCode_of ?e)
      \<and> (\<forall>j<2. \<not> fst (classify_rules ! j) (errorMessage_of ?e) (errorCode_of ?e))"
    by (simp add: classify_rules_def newError_def less_Suc_eq numeral_2_eq_2)
  note cpn = classify_permission_network [of ?e 2]
  from cpn h1 h2 have a: "classifyError ?e =
            (if str_includes (errorMessage_of ?e) ''token''
                \<and> str_includes (errorMessage_of ?e) ''expired''
               then ''auth.token_expired''
             else if str_includes (errorMessage_of ?e) ''invalid_grant''
                \<or> str_includes (errorMessage_of ?e) ''unauthorized''
               then ''auth.invalid_credentials''
             else ''auth.permission_denied'')" by blast
  have a': "classifyError ?e = ''auth.permission_denied''"
    by (subst a) (simp add: newError_def)
  from cpn h3 have b: "classifyError ?e = spec_kind_order ! 2" by blast
  show ?thesis using h1 h2 a' b by (simp add: newError_def)
qed

text \<open>
  The claim as stated fails where a rule of higher priority matches: this message contains
  \<open>permission\<close> and \<open>network\<close>, and \<open>unauthorized\<close> as well.
\<close>

theorem classify_permission_network_counterexample:
  "str_includes ''unauthorized: permission denied by network policy'' ''permission''
   \<and> str_includes ''unauthorized: permission denied by network policy'' ''network''
   \<and> classifyError (ErrObj (newError ''unauthorized: permission denied by network policy''))
       = ''auth.invalid_credentials''
   \<and> classifyError (ErrObj (newError ''unauthorized: permission denied by network policy''))
       \<noteq> ''auth.permission_denied''"
  by (simp add: classifyError_def Let_def newError_def ERROR_TYPES)







section \<open>Properties of the message builder\<close>

lemma split_crlf_not_Nil [simp]: "split_crlf s \<noteq> []"
  by (induction s rule: split_crlf.induct) (auto split: list.splits)


lemma split_crlf_append:
  "split_crlf (a @ CHR 0x0D # CHR 0x0A # b) = split_crlf a @ split_crlf b"
proof (induction a rule: split_crlf.induct)
  case 1
  then show ?case by simp
next
  case (2 c)
  then show ?case by (auto split: list.splits)
next
  case (3 c d cs)
  then show ?case by (auto split: list.splits)
qed

text \<open>The lines of a joined array are the lines of its elements, and joining the lines of
  a text gives the text back.\<close>

lemma split_join:
  "ls \<noteq> [] \<Longrightarrow> split_crlf (array_join CRLF ls) = concat (map split_crlf ls)"
proof (induction CRLF ls rule: array_join.induct)
  case 1
  then show ?case by simp
next
  case (2 x)
  then show ?case by simp
next
  case (3 x y ys)
  then show ?case by (simp add: CRLF_def split_crlf_append)
qed

lemma join_split: "array_join [CHR 0x0D, CHR 0x0A] (split_crlf s) = s"
proof (induction s rule: split_crlf.induct)
  case 1
  then show ?case by simp
next
  case (2 c)
  then show ?case by simp
next
  case (3 c d cs)
  show ?case
  proof (cases "c = CHR 0x0D \<and> d = CHR 0x0A")
    case True
    with 3(1) show ?thesis
      by (cases "split_crlf cs") simp_all
  next
    case False
    obtain l ls where sp: "split_crlf (d # cs) = l # ls"
      by (cases "split_crlf (d # cs)") simp_all
    from 3(2) [OF False] sp have j: "array_join [CHR 0x0D, CHR 0x0A] (l # ls) = d # cs" by simp
    from False sp have "split_crlf (c # d # cs) = (c # l) # ls" by simp
    moreover have "array_join [CHR 0x0D, CHR 0x0A] ((c # l) # ls)
        = c # array_join [CHR 0x0D, CHR 0x0A] (l # ls)"
      by (cases ls) simp_all
    ultimately show ?thesis using j by simp
  qed
qed

lemma crlf_free_Cons2:
  "crlf_free (c # d # cs) \<longleftrightarrow> \<not> (c = CHR 0x0D \<and> d = CHR 0x0A) \<and> crlf_free (d # cs)"
  by (auto simp: crlf_free_def)

lemma split_crlf_free: "crlf_free l \<Longrightarrow> split_crlf l = [l]"
  by (induction l rule: split_crlf.induct) (auto simp: crlf_free_Cons2)


lemma crlf_free_Nil [simp]: "crlf_free []"
  by (simp add: crlf_free_def)


lemma crlf_free_Cons: "c \<noteq> CHR 0x0D \<Longrightarrow> crlf_free (c # s) = crlf_free s"
  by (cases s) (auto simp: crlf_free_Cons2 crlf_free_def)



lemma message_lines_not_Nil: "message_lines boundary ed atts \<noteq> []"
  by (simp add: message_lines_def Let_def)

lemma lines_no_attachments:
  assumes "crlf_free (to ed)" "crlf_free (subject ed)"
  shows "split_crlf (buildEmailMessage b ed [])
     = [''To: '' @ to ed, ''Subject: '' @ subject ed, ''MIME-Version: 1.0'',
        ''Content-Type: text/plain; charset=UTF-8'', []] @ split_crlf (body ed)"
proof -
  have t: "split_crlf (''To: '' @ to ed) = [''To: '' @ to ed]"
    using assms(1) by (intro split_crlf_free) (simp add: crlf_free_Cons)
  have s: "split_crlf (''Subject: '' @ subject ed) = [''Subject: '' @ subject ed]"
    using assms(2) by (intro split_crlf_free) (simp add: crlf_free_Cons)
  have m: "split_crlf ''MIME-Version: 1.0'' = [''MIME-Version: 1.0'']"
    by (intro split_crlf_free) (simp add: crlf_free_Cons)
  have c: "split_crlf ''Content-Type: text/plain; charset=UTF-8''
      = [''Content-Type: text/plain; charset=UTF-8'']"
    by (intro split_crlf_free) (simp add: crlf_free_Cons)
  have "split_crlf (buildEmailMessage b ed [])
      = concat (map split_crlf (message_lines b ed []))"
    unfolding buildEmailMessage_def by (rule split_join [OF message_lines_not_Nil])
  also have "\<dots> = split_crlf (''To: '' @ to ed) @ split_crlf (''Subject: '' @ subject ed)
      @ split_crlf ''MIME-Version: 1.0'' @ split_crlf ''Content-Type: text/plain; charset=UTF-8''
      @ [[]] @ split_crlf (body ed)"
    by (simp add: message_lines_def del: split_crlf.simps(3))
  finally show ?thesis using t s m c by (simp del: split_crlf.simps(3))
qed

text \<open>
  Claim C8, as amended. With no attachments the envelope is, character for character, the
  four headers \<open>To\<close>, \<open>Subject\<close>, \<open>MIME-Version: 1.0\<close> and
  \<open>Content-Type: text/plain; charset=UTF-8\<close>, an empty line and the body, each followed by
  the two characters carriage return and line feed except the body, which ends the
  envelope. The Builder neither checks nor rewrites the fields, so a line break inside a
  field is kept as it is. When the recipient and the subject hold no CR LF pair, the
  header lines of the envelope are exactly these four headers, and what follows the blank
  line is the body, line for line.
\<close>

theorem build_no_attachments:
  "buildEmailMessage boundary emailData [] =
     ''To: '' @ to emailData @ [CHR 0x0D, CHR 0x0A]
     @ ''Subject: '' @ subject emailData @ [CHR 0x0D, CHR 0x0A]
     @ ''MIME-Version: 1.0'' @ [CHR 0x0D, CHR 0x0A]
     @ ''Content-Type: text/plain; charset=UTF-8'' @ [CHR 0x0D, CHR 0x0A]
     @ [CHR 0x0D, CHR 0x0A]
     @ body emailData
   \<and> (\<not> str_includes (to emailData) [CHR 0x0D, CHR 0x0A]
        \<and> \<not> str_includes (subject emailData) [CHR 0x0D, CHR 0x0A]
      \<longrightarrow> header_lines (buildEmailMessage boundary emailData [])
            = [''To: '' @ to emailData, ''Subject: '' @ subject emailData,
               ''MIME-Version: 1.0'', ''Content-Type: text/plain; charset=UTF-8'']
          \<and> body_lines (buildEmailMessage boundary emailData []) = split_crlf (body emailData)
          \<and> array_join [CHR 0x0D, CHR 0x0A] (body_lines (buildEmailMessage boundary emailData []))
            = body emailData)"
proof -
  have eq: "buildEmailMessage boundary emailData [] =
     ''To: '' @ to emailData @ [CHR 0x0D, CHR 0x0A]
     @ ''Subject: '' @ subject emailData @ [CHR 0x0D, CHR 0x0A]
     @ ''MIME-Version: 1.0'' @ [CHR 0x0D, CHR 0x0A]
     @ ''Content-Type: text/plain; charset=UTF-8'' @ [CHR 0x0D, CHR 0x0A]
     @ [CHR 0x0D, CHR 0x0A]
     @ body emailData"
    by (simp add: buildEmailMessage_def message_lines_def CRLF_def)
  have ln: "header_lines (buildEmailMessage boundary emailData [])
            = [''To: '' @ to emailData, ''Subject: '' @ subject emailData,
               ''MIME-Version: 1.0'', ''Content-Type: text/plain; charset=UTF-8'']
          \<and> body_lines (buildEmailMessage boundary emailData []) = split_crlf (body emailData)
          \<and> array_join [CHR 0x0D, CHR 0x0A] (body_lines (buildEmailMessage boundary emailData []))
            = body emailData"
    if "crlf_free (to emailData)" "crlf_free (subject emailData)"
  proof -
    note l = lines_no_attachments [OF that, of boundary]
    have h: "header_lines (buildEmailMessage boundary emailData [])
            = [''To: '' @ to emailData, ''Subject: '' @ subject emailData,
               ''MIME-Version: 1.0'', ''Content-Type: text/plain; charset=UTF-8'']"
      unfolding header_lines_def l by simp
    have b: "body_lines (buildEmailMessage boundary emailData []) = split_crlf (body emailData)"
      unfolding body_lines_def l by simp
    from h b show ?thesis by (simp add: join_split)
  qed
  show ?thesis using eq ln unfolding crlf_free_def by blast
qed

theorem build_no_attachments_witness:
  "\<not> str_includes ''user@example.com'' [CHR 0x0D, CHR 0x0A]
   \<and> \<not> str_includes ''Hi'' [CHR 0x0D, CHR 0x0A]
   \<and> header_lines (buildEmailMessage ''boundary_k3j9x0a1b''
        \<lparr>to = ''user@example.com'', subject = ''Hi'',
         body = ''Hello'' @ [CHR 0x0D, CHR 0x0A] @ ''world''\<rparr> [])
       = [''To: user@example.com'', ''Subject: Hi'', ''MIME-Version: 1.0'',
          ''Content-Type: text/plain; charset=UTF-8'']
   \<and> body_lines (buildEmailMessage ''boundary_k3j9x0a1b''
        \<lparr>to = ''user@example.com'', subject = ''Hi'',
         body = ''Hello'' @ [CHR 0x0D, CHR 0x0A] @ ''world''\<rparr> [])
       = [''Hello'', ''world'']"
proof -
  let ?ed = "\<lparr>to = ''user@example.com'', subject = ''Hi'',
              body = ''Hello'' @ [CHR 0x0D, CHR 0x0A] @ ''world''\<rparr>"
  have h: "\<not> str_includes (to ?ed) [CHR 0x0D, CHR 0x0A]"
    "\<not> str_includes (subject ?ed) [CHR 0x0D, CHR 0x0A]"
    by simp_all
  note bna = build_no_attachments [of "''boundary_k3j9x0a1b''" ?ed]
  from bna h have "header_lines (buildEmailMessage ''boundary_k3j9x0a1b'' ?ed [])
       = [''To: '' @ to ?ed, ''Subject: '' @ subject ?ed,
          ''MIME-Version: 1.0'', ''Content-Type: text/plain; charset=UTF-8'']"
    and "body_lines (buildEmailMessage ''boundary_k3j9x0a1b'' ?ed []) = split_crlf (body ?ed)"
    by blast+
  then show ?thesis using h by simp
qed

text \<open>
  The claim as stated fails for a field that holds a CR LF pair. The orchestrator accepts
  a recipient that ends in one (\<open>isValidEmail\<close> trims before it matches, and the recipient
  is passed on untrimmed): the header block of the envelope then ends after \<open>To\<close>, and the
  other three headers are read as body.
\<close>

theorem build_no_attachments_counterexample:
  "isValidEmail (''user@example.com'' @ [CHR 0x0D, CHR 0x0A])
   \<and> header_lines (buildEmailMessage ''boundary_k3j9x0a1b''
        \<lparr>to = ''user@example.com'' @ [CHR 0x0D, CHR 0x0A], subject = ''Hi'', body = ''Hello''\<rparr> [])
       = [''To: user@example.com'']
   \<and> body_lines (buildEmailMessage ''boundary_k3j9x0a1b''
        \<lparr>to = ''user@example.com'' @ [CHR 0x0D, CHR 0x0A], subject = ''Hi'', body = ''Hello''\<rparr> [])
       = [''Subject: Hi'', ''MIME-Version: 1.0'', ''Content-Type: text/plain; charset=UTF-8'',
          [], ''Hello'']"
  by (simp add: isValidEmail_def trim_def is_space_def emailRegex_def not_space_at_def
        header_lines_def body_lines_def buildEmailMessage_def message_lines_def CRLF_def)





lemma not_marker_Nil [simp]: "\<not> is_boundary_marker b []"
  by (simp add: is_boundary_marker_def)
























section \<open>Properties of the credential manager\<close>

lemma extends_refl: "extends_by S w w"
  by (simp add: extends_by_def)

lemma extends_trans: "extends_by S w w1 \<Longrightarrow> extends_by S w1 w2 \<Longrightarrow> extends_by S w w2"
  by (auto simp: extends_by_def)

lemma extends_emit: "e \<in> S \<Longrightarrow> extends_by S w (emit e w)"
  by (simp add: extends_by_def emit_def)

lemma validateToken_extends:
  "TokenInfo t \<in> S \<Longrightarrow> extends_by S w (snd (validateToken env t w))"
  by (auto simp: validateToken_def extends_refl extends_emit split: sum.splits)

lemma StorageService_getAuthToken_extends:
  "StorageGet AUTH_TOKEN \<in> S \<Longrightarrow> extends_by S w (snd (StorageService_getAuthToken env w))"
  by (auto simp: StorageService_getAuthToken_def extends_emit)







lemma getValidToken_rewrap: "getValidToken env w = rewrap (getValidToken_body env w)"
  by (simp add: getValidToken_def rewrap_def)










section \<open>Properties of the transport and the orchestrator\<close>

declare retryWithBackoff.simps [simp del]
declare digits_of.simps [simp del]

lemma no_throw_simps [simp]:
  "no_throw (None, w)" "no_throw (Some (Inr x), w)" "\<not> no_throw (Some (Inl e), w)"
  by (simp_all add: no_throw_def)

text \<open>
  \<open>sendEmail\<close> never throws: every failure is caught and handed to \<open>_handleApiError\<close>, which
  returns a result. So the \<open>catch\<close> of \<open>_retryWithBackoff\<close>, the only place where the attempt
  counter grows, is never entered through \<open>sendEmail\<close>, and a backoff retry is one timer
  followed by a fresh \<open>sendEmail\<close>.
\<close>

lemma retryWithBackoff_resend:
  assumes "no_throw (self emailData attachments (emit (Sleep (2 ^ attempt * 1000)) w))"
    and "attempt \<le> maxRetries_svc"
  shows "retryWithBackoff self emailData attachments attempt w
           = self emailData attachments (emit (Sleep (2 ^ attempt * 1000)) w)"
proof -
  obtain r w1 where s: "self emailData attachments (emit (Sleep (2 ^ attempt * 1000)) w) = (r, w1)"
    by (cases "self emailData attachments (emit (Sleep (2 ^ attempt * 1000)) w)")
  with assms(1) have "r = None \<or> (\<exists>x. r = Some (Inr x))"
    by (cases r; cases "the r") (auto simp: no_throw_def)
  with s assms(2) show ?thesis
    by (subst retryWithBackoff.simps) auto
qed

lemma retryWithBackoff_no_throw:
  assumes "\<And>w'. no_throw (self emailData attachments w')"
  shows "no_throw (retryWithBackoff self emailData attachments attempt w)"
proof (cases "attempt \<le> maxRetries_svc")
  case True
  then show ?thesis using assms by (simp add: retryWithBackoff_resend)
next
  case False
  then show ?thesis by (subst retryWithBackoff.simps) simp
qed

lemma handleApiError_no_throw:
  assumes "\<And>w'. no_throw (self emailData attachments w')"
  shows "no_throw (handleApiError self env error emailData attachments w)"
proof -
  let ?kind = "classifyError (ErrObj (js_error.truncate error))"
  have rb: "\<And>k w'. no_throw (retryWithBackoff self emailData attachments k w')"
    using assms by (rule retryWithBackoff_no_throw)
  have inner: "no_throw (case self emailData attachments w1 of
                    (Some (Inl authError), w2) \<Rightarrow>
                      (Some (Inr (Failed (createErrorResponse (ErrObj authError) []))), w2)
                  | r \<Rightarrow> r)" for w1
    using assms [of w1]
    by (cases "self emailData attachments w1") (auto simp: no_throw_def split: option.splits sum.splits)
  show ?thesis
  proof (cases "?kind = TOKEN_EXPIRED")
    case True
    obtain r w1 where h: "handleAuthError env (js_error.truncate error) w = (r, w1)"
      by (cases "handleAuthError env (js_error.truncate error) w")
    show ?thesis
    proof (cases r)
      case (Inl authError)
      with True h show ?thesis by (simp add: handleApiError_def)
    next
      case (Inr token)
      with True h inner [of w1] show ?thesis by (simp add: handleApiError_def)
    qed
  next
    case False
    then show ?thesis
      using rb by (simp add: handleApiError_def handleRateLimit_def Let_def)
  qed
qed

lemma sendEmail_no_throw: "no_throw (sendEmail n env emailData attachments w)"
proof (induction n arbitrary: w)
  case 0
  then show ?case by simp
next
  case (Suc n)
  have h: "no_throw (handleApiError (sendEmail n env) env error emailData attachments w')"
    for error w'
    by (rule handleApiError_no_throw) (rule Suc.IH)
  show ?case
  proof (cases "getValidToken env w")
    case (Pair r w1)
    show ?thesis
    proof (cases r)
      case (Inl error)
      with Pair h show ?thesis by simp
    next
      case (Inr token)
      let ?m = "buildEmailMessage (''boundary_'' @ random_suffix env (trace w1)) emailData attachments"
      obtain r2 w2 where m: "makeApiRequest env token ?m w1 = (r2, w2)"
        by (cases "makeApiRequest env token ?m w1")
      with Pair Inr h show ?thesis by (cases r2) (auto split: prod.splits)
    qed
  qed
qed

lemma sendEmail_backoff_restarts:
  "attempt \<le> maxRetries_svc \<Longrightarrow>
   retryWithBackoff (sendEmail n env) emailData attachments attempt w
     = sendEmail n env emailData attachments (emit (Sleep (2 ^ attempt * 1000)) w)"
  by (rule retryWithBackoff_resend [OF sendEmail_no_throw])

lemma first_match_cases:
  "P ''unknown'' \<Longrightarrow> list_all (\<lambda>(p, k). P k) rs \<Longrightarrow> P (first_match rs m c)"
  by (induction rs) auto

lemma classifyError_nonempty: "classifyError error \<noteq> []"
proof -
  have "list_all (\<lambda>(p, k). k \<noteq> []) classify_rules"
    by (simp add: classify_rules_def ERROR_TYPES)
  then have "first_match classify_rules (errorMessage_of error) (errorCode_of error) \<noteq> []"
    by (intro first_match_cases [where P = "\<lambda>k. k \<noteq> []"]) simp_all
  then show ?thesis by (simp add: classifyError_first_match)
qed

lemma strategy_message_nonempty:
  "RECOVERY_STRATEGIES k = Some strategy \<Longrightarrow> userMessage strategy \<noteq> []"
  by (auto simp: RECOVERY_STRATEGIES_def split: if_splits)

lemma getUserMessage_nonempty: "getUserMessage error \<noteq> []"
  by (auto simp: getUserMessage_def Let_def strategy_message_nonempty split: option.splits)

lemma getActionableMessage_nonempty: "getActionableMessage error \<noteq> []"
  by (simp add: getActionableMessage_def split: option.splits)

text \<open>
  Whenever \<open>sendEmailWithAttachment\<close> returns, it returns a result and not an exception: the
  success object for the recipient, or an error response with \<open>success = false\<close>, a kind, a
  user message and an actionable message.
\<close>

lemma createErrorResponse_populated:
  "success (createErrorResponse error ctx) = False
   \<and> errorType (createErrorResponse error ctx) \<noteq> []
   \<and> resp_message (createErrorResponse error ctx) \<noteq> []
   \<and> actionableMessage (createErrorResponse error ctx) \<noteq> []
   \<and> isRetryable (createErrorResponse error ctx) = isRetryableError (classifyError error)"
  by (simp add: createErrorResponse_def Let_def classifyError_nonempty getUserMessage_nonempty
        getActionableMessage_nonempty)

lemma body_result:
  assumes "sendEmailWithAttachment_body n env recipient w0 = (Some (Inr x), w1)"
  shows "\<exists>mid. x = EmailSent mid recipient"
proof (cases "isValidEmail recipient")
  case False
  with assms show ?thesis by (simp add: sendEmailWithAttachment_body_def)
next
  case True
  obtain c wc where cfg: "getEmailConfig env w0 = (c, wc)" by (cases "getEmailConfig env w0")
  show ?thesis
  proof (cases c)
    case (Inl err)
    with assms True cfg show ?thesis by (simp add: sendEmailWithAttachment_body_def)
  next
    case (Inr oc)
    show ?thesis
    proof (cases oc)
      case None
      with assms True cfg Inr show ?thesis by (simp add: sendEmailWithAttachment_body_def)
    next
      case (Some config)
      show ?thesis
      proof (cases "validateEmailConfig config = []")
        case False
        with assms True cfg Inr Some show ?thesis
          by (simp add: sendEmailWithAttachment_body_def Let_def)
      next
        case valid: True
        obtain r ws where snd: "sendEmail n env (prepareEmailData recipient config)
            (prepareAttachments config) wc = (r, ws)"
          by (cases "sendEmail n env (prepareEmailData recipient config) (prepareAttachments config) wc")
        from assms True cfg Inr Some valid snd
        have "(case r of None \<Rightarrow> (None, ws)
               | Some (Inl err) \<Rightarrow> (Some (Inl err), ws)
               | Some (Inr (Sent mid tid)) \<Rightarrow> (Some (Inr (EmailSent mid recipient)), ws)
               | Some (Inr (Failed resp)) \<Rightarrow>
                   (Some (Inl (newError (if resp_message resp = [] then ''Failed to send email''
                                         else resp_message resp))), ws))
              = (Some (Inr x), w1)"
          by (simp add: sendEmailWithAttachment_body_def Let_def)
        then show ?thesis
          by (auto split: option.splits sum.splits send_result.splits)
      qed
    qed
  qed
qed

lemma sendEmailWithAttachment_normalized:
  assumes "fst (sendEmailWithAttachment n env recipient w) = Some r"
  shows "\<exists>x. r = Inr x
     \<and> (case x of
          EmailSent mid rcpt \<Rightarrow> rcpt = recipient
        | EmailFailed resp \<Rightarrow>
            success resp = False \<and> errorType resp \<noteq> [] \<and> resp_message resp \<noteq> []
            \<and> actionableMessage resp \<noteq> [])"
proof -
  define w0 where "w0 = (if initialized w then w else snd (EmailService_initialize env w))"
  obtain b w1 where body: "sendEmailWithAttachment_body n env recipient w0 = (b, w1)"
    by (cases "sendEmailWithAttachment_body n env recipient w0")
  show ?thesis
  proof (cases b)
    case None
    with body assms show ?thesis by (simp add: sendEmailWithAttachment_def w0_def Let_def)
  next
    case (Some o1)
    show ?thesis
    proof (cases o1)
      case (Inl error)
      with Some body assms show ?thesis
        by (auto simp: sendEmailWithAttachment_def w0_def Let_def createErrorResponse_populated)
    next
      case (Inr x)
      with Some body body_result [of n env recipient w0 x w1]
      obtain mid where "x = EmailSent mid recipient" by auto
      with Inr Some body assms show ?thesis
        by (auto simp: sendEmailWithAttachment_def w0_def Let_def)
    qed
  qed
qed

lemma truncate_plain [simp]: "js_error.truncate (plain e) = e"
  by (simp add: plain_def js_error.truncate_def js_error.extend_def)

lemma classify_failed_to_fetch:
  "classifyError (ErrObj (newError ''Failed to fetch'')) = NETWORK_ERROR"
  by (simp add: classifyError_def newError_def Let_def ERROR_TYPES code_is_def code_ge_def truthy_num_def)

lemma posts_emit: "posts (emit e w) = posts w + (if is_post e then 1 else 0)"
  by (simp add: posts_def emit_def)

lemma getValidToken_offline:
  "currentToken w = Some ''token-live''
   \<Longrightarrow> getValidToken env_offline w = (Inr ''token-live'', emit (TokenInfo ''token-live'') w)"
  by (simp add: getValidToken_def getValidToken_body_def validateToken_def env_offline_def)

lemma makeApiRequest_offline:
  "makeApiRequest env_offline token m w
     = (Inl (plain (newError ''Failed to fetch'')), emit (MailPost token m) w)"
  by (simp add: makeApiRequest_def env_offline_def)

lemma handleApiError_network:
  assumes pending: "fst (self emailData attachments (emit (Sleep 2000) w)) = None"
  shows "handleApiError self env (plain (newError ''Failed to fetch'')) emailData attachments w
     = self emailData attachments (emit (Sleep 2000) w)"
proof -
  obtain w' where r: "self emailData attachments (emit (Sleep 2000) w) = (None, w')"
    using pending by (cases "self emailData attachments (emit (Sleep 2000) w)") auto
  have "retryWithBackoff self emailData attachments 1 w = (None, w')"
    using r by (subst retryWithBackoff.simps) (simp add: maxRetries_svc_def)
  then show ?thesis
    using r by (simp add: handleApiError_def classify_failed_to_fetch ERROR_TYPES)
qed

lemma sendEmail_offline:
  "currentToken w = Some ''token-live''
   \<Longrightarrow> fst (sendEmail n env_offline emailData attachments w) = None
     \<and> posts (snd (sendEmail n env_offline emailData attachments w)) = posts w + n"
proof (induction n arbitrary: w)
  case 0
  then show ?case by simp
next
  case (Suc n)
  let ?w1 = "emit (TokenInfo ''token-live'') w"
  let ?m = "buildEmailMessage (''boundary_'' @ random_suffix env_offline (trace ?w1)) emailData attachments"
  let ?w2 = "emit (MailPost ''token-live'' ?m) ?w1"
  let ?w3 = "emit (Sleep 2000) ?w2"
  have tok: "currentToken ?w3 = Some ''token-live''"
    using Suc.prems by (simp add: emit_def)
  note IH = Suc.IH [OF tok]
  have "sendEmail (Suc n) env_offline emailData attachments w
        = handleApiError (sendEmail n env_offline) env_offline (plain (newError ''Failed to fetch''))
            emailData attachments ?w2"
    using Suc.prems by (simp add: getValidToken_offline makeApiRequest_offline)
  also have "\<dots> = sendEmail n env_offline emailData attachments ?w3"
    using IH by (intro handleApiError_network) simp
  finally have eq: "sendEmail (Suc n) env_offline emailData attachments w
        = sendEmail n env_offline emailData attachments ?w3" .
  have "posts ?w3 = posts w + 1" by (simp add: posts_emit)
  with IH eq show ?case by simp
qed

text \<open>
  Claim C1, on the code. With a mail endpoint that fails with a network error on every
  attempt, \<open>sendEmail\<close> has not returned after any number \<open>n\<close> of send attempts, and by then
  it has made \<open>n\<close> POSTs: each failed attempt re-enters \<open>_handleApiError\<close>, which starts
  \<open>_retryWithBackoff\<close> again at attempt 1, so the attempt counter never passes the bound
  and no terminal error is returned.
\<close>

theorem sendEmail_offline_never_returns:
  "fst (sendEmail n env_offline emailData attachments w_ready) = None
   \<and> posts (snd (sendEmail n env_offline emailData attachments w_ready)) = n"
  using sendEmail_offline [of w_ready n emailData attachments]
  by (simp add: w_ready_def posts_def)

lemma isValidEmail_example: "isValidEmail ''user@example.com''"
  by (simp add: isValidEmail_def trim_def emailRegex_def not_space_at_def is_space_def)

lemma validate_config_hi: "validateEmailConfig config_hi = []"
  by (simp add: validateEmailConfig_def config_hi_def trim_def is_space_def)

text \<open>
  Claim C7, on the code. With the same unreachable mail endpoint, a valid recipient and a
  valid stored template, \<open>sendEmailWithAttachment\<close> does not return a result for any
  number of send attempts.
\<close>

theorem sendEmailWithAttachment_offline_never_returns:
  "fst (sendEmailWithAttachment n env_offline ''user@example.com'' w_ready) = None"
proof -
  let ?w1 = "emit (StorageGet EMAIL_CONFIG) w_ready"
  have cfg: "getEmailConfig env_offline w_ready = (Inr (Some config_hi), ?w1)"
    by (simp add: getEmailConfig_def env_offline_def w_ready_def)
  have tok: "currentToken ?w1 = Some ''token-live''"
    by (simp add: emit_def w_ready_def)
  have "fst (sendEmail n env_offline (prepareEmailData ''user@example.com'' config_hi)
               (prepareAttachments config_hi) ?w1) = None"
    using sendEmail_offline [OF tok] by simp
  then obtain w2 where "sendEmail n env_offline (prepareEmailData ''user@example.com'' config_hi)
               (prepareAttachments config_hi) ?w1 = (None, w2)"
    by (cases "sendEmail n env_offline (prepareEmailData ''user@example.com'' config_hi)
               (prepareAttachments config_hi) ?w1") auto
  then have "sendEmailWithAttachment_body n env_offline ''user@example.com'' w_ready = (None, w2)"
    by (simp add: sendEmailWithAttachment_body_def isValidEmail_example cfg validate_config_hi)
  moreover have "initialized w_ready" by (simp add: w_ready_def)
  ultimately show ?thesis by (simp add: sendEmailWithAttachment_def)
qed

lemma extends_posts: "extends_by {e. \<not> is_post e} w w' \<Longrightarrow> posts w' = posts w"
  by (auto simp: extends_by_def posts_def filter_empty_conv)

lemma clearAuthToken_extends:
  "StorageRemove AUTH_TOKEN \<in> S \<Longrightarrow> extends_by S w (snd (clearAuthToken env w))"
  by (auto simp: clearAuthToken_def extends_emit emit_def extends_by_def)

lemma AuthService_initialize_extends:
  assumes "range TokenInfo \<subseteq> S" "StorageGet AUTH_TOKEN \<in> S" "StorageRemove AUTH_TOKEN \<in> S"
  shows "extends_by S w (snd (AuthService_initialize env w))"
proof -
  obtain r w1 where g: "StorageService_getAuthToken env w = (r, w1)"
    by (cases "StorageService_getAuthToken env w")
  have e1: "extends_by S w w1"
    using StorageService_getAuthToken_extends [OF assms(2), of w env] g by simp
  show ?thesis
  proof (cases r)
    case (Inl err)
    with g e1 show ?thesis by (simp add: AuthService_initialize_def)
  next
    case (Inr st)
    show ?thesis
    proof (cases st)
      case None
      with g Inr e1 show ?thesis by (simp add: AuthService_initialize_def)
    next
      case (Some t)
      obtain v w2 where val: "validateToken env t w1 = (v, w2)" by (cases "validateToken env t w1")
      have "TokenInfo t \<in> S" using assms(1) by auto
      then have "extends_by S w1 w2"
        using validateToken_extends [of t S w1 env] val by simp
      with e1 have e2: "extends_by S w w2" by (rule extends_trans)
      then have e2': "extends_by S w (w2\<lparr>currentToken := Some t\<rparr>)"
        by (simp add: extends_by_def)
      have "extends_by S w2 (snd (clearAuthToken env w2))"
        by (rule clearAuthToken_extends [OF assms(3)])
      with e2 have e3: "extends_by S w (snd (clearAuthToken env w2))" by (rule extends_trans)
      from g Inr Some val e2' e3 show ?thesis
        by (cases v; cases "clearAuthToken env w2"; cases "fst (clearAuthToken env w2)")
           (simp_all add: AuthService_initialize_def)
    qed
  qed
qed

lemma EmailService_initialize_posts: "posts (snd (EmailService_initialize env w)) = posts w"
proof -
  have "extends_by {e. \<not> is_post e} w (snd (AuthService_initialize env w))"
    by (rule AuthService_initialize_extends) (auto simp: AUTH_TOKEN_def)
  then have "posts (snd (AuthService_initialize env w)) = posts w" by (rule extends_posts)
  then show ?thesis
    by (cases "AuthService_initialize env w") (simp add: EmailService_initialize_def posts_def)
qed

lemma classify_invalid_recipient:
  "classifyError (ErrObj (newError ''Invalid recipient email address'')) = ''unknown''"
  by (simp add: classifyError_def newError_def Let_def ERROR_TYPES code_is_def code_ge_def truthy_num_def)

text \<open>
  Claim C2, on the code. For every recipient the validator rejects,
  \<open>sendEmailWithAttachment\<close> returns a failure and makes no POST to the mail endpoint, but
  the kind it reports is \<open>unknown\<close>: the error thrown reads \<open>Invalid recipient email address\<close>,
  and the classifier looks for \<open>invalid\<close> in lower case.
\<close>

theorem invalid_recipient_unknown:
  assumes "\<not> isValidEmail recipient"
  shows "\<exists>resp. fst (sendEmailWithAttachment fuel env recipient w) = Some (Inr (EmailFailed resp))
           \<and> success resp = False
           \<and> errorType resp = ''unknown''
           \<and> posts (snd (sendEmailWithAttachment fuel env recipient w)) = posts w"
proof -
  define w0 where "w0 = (if initialized w then w else snd (EmailService_initialize env w))"
  have p: "posts w0 = posts w" by (simp add: w0_def EmailService_initialize_posts)
  have "sendEmailWithAttachment_body fuel env recipient w0
        = (Some (Inl (newError ''Invalid recipient email address'')), w0)"
    using assms by (simp add: sendEmailWithAttachment_body_def)
  then have "sendEmailWithAttachment fuel env recipient w
        = (Some (Inr (EmailFailed (createErrorResponse
              (ErrObj (newError ''Invalid recipient email address''))
              [(''recipient'', CtxStr recipient)]))), w0)"
    by (simp add: sendEmailWithAttachment_def w0_def Let_def)
  with p show ?thesis
    by (simp add: createErrorResponse_def Let_def classify_invalid_recipient)
qed

theorem invalid_recipient_unknown_witness:
  "\<not> isValidEmail ''bad-address''
   \<and> (\<exists>resp. fst (sendEmailWithAttachment 5 env_offline ''bad-address'' w_ready)
               = Some (Inr (EmailFailed resp))
         \<and> errorType resp = ''unknown'' \<and> errorType resp \<noteq> ''validation.invalid_email'')
   \<and> posts (snd (sendEmailWithAttachment 5 env_offline ''bad-address'' w_ready)) = 0"
proof -
  have h: "\<not> isValidEmail ''bad-address''"
    by (simp add: isValidEmail_def trim_def emailRegex_def not_space_at_def is_space_def)
  have p: "posts w_ready = 0" by (simp add: posts_def w_ready_def)
  from invalid_recipient_unknown [OF h, of 5 env_offline w_ready] p h
  show ?thesis by auto
qed

text \<open>
  On the first call of a session the service initialises itself before it looks at the
  recipient, so a stored token is introspected over the network even for a recipient that
  is rejected; what is never made for such a recipient is the POST to the mail endpoint.
\<close>

lemma invalid_recipient_first_call:
  "trace (snd (sendEmailWithAttachment n env_offline ''bad-address'' (w_ready\<lparr>initialized := False\<rparr>)))
     = [StorageGet ''gmail_access_token'', TokenInfo ''token-live'']"
  by (simp add: sendEmailWithAttachment_def sendEmailWithAttachment_body_def
        EmailService_initialize_def AuthService_initialize_def StorageService_getAuthToken_def
        validateToken_def env_offline_def w_ready_def emit_def AUTH_TOKEN_def
        isValidEmail_def trim_def emailRegex_def not_space_at_def is_space_def)

section \<open>Properties of concurrent calls\<close>

lemma gvt_run_Done [simp]: "gvt_run env n (GVT_Done r, w) = (GVT_Done r, w)"
  by (induction n) simp_all

lemma gvt_run_acquire:
  "gvt_run env (Suc (Suc n)) (gvt_acquire env w)
     = (GVT_Done (fst (rewrap (authenticate env True w))), snd (rewrap (authenticate env True w)))"
  by (simp add: gvt_acquire_def authenticate_def rewrap_def
        AuthService_getAuthToken_def saveAuthToken_def
        authenticate_catch_def getValidToken_catch_def
      split: sum.splits prod.splits)

lemma gvt_run_load:
  "gvt_run env (Suc (Suc (Suc (Suc n)))) (gvt_load env w)
     = (GVT_Done (fst (rewrap (getValidToken_stored env w))),
        snd (rewrap (getValidToken_stored env w)))"
proof -
  obtain r w1 where g: "StorageService_getAuthToken env w = (r, w1)"
    by (cases "StorageService_getAuthToken env w")
  show ?thesis
  proof (cases r)
    case (Inl err)
    with g show ?thesis
      by (simp add: gvt_load_def getValidToken_stored_def rewrap_def getValidToken_catch_def)
  next
    case (Inr st)
    show ?thesis
    proof (cases st)
      case None
      with g Inr show ?thesis
        by (simp add: gvt_load_def getValidToken_stored_def gvt_run_acquire)
    next
      case (Some t)
      obtain v w2 where val: "validateToken env t w1 = (v, w2)" by (cases "validateToken env t w1")
      show ?thesis
      proof (cases v)
        case True
        with g Inr Some val show ?thesis
          by (simp add: gvt_load_def getValidToken_stored_def rewrap_def)
      next
        case False
        with g Inr Some val show ?thesis
          by (simp add: gvt_load_def getValidToken_stored_def gvt_run_acquire)
      qed
    qed
  qed
qed

text \<open>Run alone, the machine is \<open>getValidToken\<close>: six steps always finish the call, with
  the same result and the same final state.\<close>

lemma validateToken_currentToken:
  "validateToken env t w = (v, w1) \<Longrightarrow> currentToken w1 = currentToken w"
  by (auto simp: validateToken_def emit_def split: if_splits sum.splits)

lemma gvt_run_refines:
  "gvt_run env (Suc (Suc (Suc (Suc (Suc (Suc n)))))) (GVT_Start, w)
     = (GVT_Done (fst (getValidToken env w)), snd (getValidToken env w))"
proof (cases "currentToken w")
  case None
  then show ?thesis
    by (simp add: gvt_run_load getValidToken_rewrap getValidToken_body_def)
next
  case (Some t)
  show ?thesis
  proof (cases "t = []")
    case True
    with Some show ?thesis
      by (simp add: gvt_run_load getValidToken_rewrap getValidToken_body_def validateToken_def)
  next
    case False
    obtain v w1 where val: "validateToken env t w = (v, w1)" by (cases "validateToken env t w")
    show ?thesis
    proof (cases v)
      case True
      with Some False val validateToken_currentToken [OF val] show ?thesis
        by (simp add: getValidToken_rewrap getValidToken_body_def rewrap_def)
    next
      case notvalid: False
      with Some False val show ?thesis
        by (simp add: gvt_run_load getValidToken_rewrap getValidToken_body_def)
    qed
  qed
qed

lemma acquisitions_emit:
  "interactive_acquisitions (emit e w)
     = interactive_acquisitions w + (if e = AcquireToken True then 1 else 0)"
  by (simp add: interactive_acquisitions_def emit_def)

lemma acquisitions_update [simp]:
  "interactive_acquisitions (w\<lparr>currentToken := c\<rparr>) = interactive_acquisitions w"
  "interactive_acquisitions (w\<lparr>stored_token := t\<rparr>) = interactive_acquisitions w"
  by (simp_all add: interactive_acquisitions_def)

lemma step_committed:
  assumes "clientId env \<noteq> []" "committed pc" "gvt_step env pc w = (pc', w')"
  shows "committed pc'
     \<and> interactive_acquisitions w' + pending pc' = interactive_acquisitions w + pending pc"
proof (cases pc)
  case (GVT_Loaded r)
  show ?thesis
  proof (cases r)
    case (Inl err)
    with assms(3) GVT_Loaded show ?thesis by auto
  next
    case (Inr st)
    with assms(2) GVT_Loaded have r: "r = Inr None" by (cases st) auto
    with assms(1,3) GVT_Loaded show ?thesis
      by (auto simp: gvt_acquire_def AuthService_getAuthToken_def acquisitions_emit
            split: sum.splits)
  qed
next
  case (GVT_Acquired r)
  with assms(3) show ?thesis
    by (auto simp: saveAuthToken_def acquisitions_emit split: sum.splits if_splits)
next
  case (GVT_Saved token r)
  with assms(3) show ?thesis by (auto split: sum.splits)
next
  case (GVT_Done r)
  with assms(3) show ?thesis by auto
qed (use assms(2) in simp_all)

lemma run2_committed:
  assumes "clientId env \<noteq> []"
  shows "committed p0 \<Longrightarrow> committed p1 \<Longrightarrow> run2 env sched (p0, p1, w) = (q0, q1, w')
    \<Longrightarrow> interactive_acquisitions w' + pending q0 + pending q1
        = interactive_acquisitions w + pending p0 + pending p1"
proof (induction sched arbitrary: p0 p1 w)
  case Nil
  then show ?case by simp
next
  case (Cons b sched)
  show ?case
  proof (cases b)
    case True
    obtain p1' w1 where st: "gvt_step env p1 w = (p1', w1)" by (cases "gvt_step env p1 w")
    from step_committed [OF assms Cons.prems(2) st]
    have c: "committed p1'"
      and n: "interactive_acquisitions w1 + pending p1' = interactive_acquisitions w + pending p1"
      by simp_all
    from Cons.prems(3) True st have "run2 env sched (p0, p1', w1) = (q0, q1, w')" by simp
    from Cons.IH [OF Cons.prems(1) c this] n show ?thesis by simp
  next
    case False
    obtain p0' w1 where st: "gvt_step env p0 w = (p0', w1)" by (cases "gvt_step env p0 w")
    from step_committed [OF assms Cons.prems(1) st]
    have c: "committed p0'"
      and n: "interactive_acquisitions w1 + pending p0' = interactive_acquisitions w + pending p0"
      by simp_all
    from Cons.prems(3) False st have "run2 env sched (p0', p1, w1) = (q0, q1, w')" by simp
    from Cons.IH [OF c Cons.prems(2) this] n show ?thesis by simp
  qed
qed

text \<open>Without a client id no step reaches the identity provider.\<close>

lemma validateToken_acquisitions:
  "validateToken env t w = (v, w1) \<Longrightarrow> interactive_acquisitions w1 = interactive_acquisitions w"
  by (auto simp: validateToken_def acquisitions_emit split: if_splits sum.splits)

lemma gvt_load_acquisitions:
  "gvt_load env w = (pc', w') \<Longrightarrow> interactive_acquisitions w' = interactive_acquisitions w"
  by (auto simp: gvt_load_def StorageService_getAuthToken_def acquisitions_emit
        split: if_splits)

lemma gvt_acquire_no_client:
  "clientId env = [] \<Longrightarrow> gvt_acquire env w = (pc', w')
   \<Longrightarrow> interactive_acquisitions w' = interactive_acquisitions w"
  by (auto simp: gvt_acquire_def)

lemma step_no_client:
  assumes "clientId env = []" "gvt_step env pc w = (pc', w')"
  shows "interactive_acquisitions w' = interactive_acquisitions w"
proof (cases pc)
  case GVT_Start
  show ?thesis
  proof (cases "currentToken w")
    case None
    with assms(2) GVT_Start show ?thesis by (simp add: gvt_load_acquisitions)
  next
    case (Some t)
    obtain v w1 where val: "validateToken env t w = (v, w1)" by (cases "validateToken env t w")
    with assms(2) GVT_Start Some validateToken_acquisitions [OF val] show ?thesis
      by (auto simp: gvt_load_acquisitions split: if_splits)
  qed
next
  case (GVT_ValidatedMemory t v)
  with assms(2) show ?thesis by (auto simp: gvt_load_acquisitions split: if_splits)
next
  case (GVT_Loaded r)
  show ?thesis
  proof (cases r)
    case (Inl err)
    with assms(2) GVT_Loaded show ?thesis by auto
  next
    case (Inr st)
    show ?thesis
    proof (cases st)
      case None
      with assms GVT_Loaded Inr show ?thesis by (simp add: gvt_acquire_no_client)
    next
      case (Some t)
      obtain v w1 where val: "validateToken env t w = (v, w1)" by (cases "validateToken env t w")
      with assms(2) GVT_Loaded Inr Some validateToken_acquisitions [OF val] show ?thesis by auto
    qed
  qed
next
  case (GVT_ValidatedStored t v)
  show ?thesis
  proof (cases v)
    case True
    with assms(2) GVT_ValidatedStored show ?thesis by auto
  next
    case False
    with assms GVT_ValidatedStored show ?thesis by (simp add: gvt_acquire_no_client)
  qed
next
  case (GVT_Acquired r)
  with assms(2) show ?thesis
    by (auto simp: saveAuthToken_def acquisitions_emit split: sum.splits if_splits)
next
  case (GVT_Saved token r)
  with assms(2) show ?thesis by (auto split: sum.splits)
next
  case (GVT_Done r)
  with assms(2) show ?thesis by auto
qed

lemma run2_no_client:
  assumes "clientId env = []"
  shows "run2 env sched (p0, p1, w) = (q0, q1, w')
    \<Longrightarrow> interactive_acquisitions w' = interactive_acquisitions w"
proof (induction sched arbitrary: p0 p1 w)
  case Nil
  then show ?case by simp
next
  case (Cons b sched)
  show ?case
  proof (cases b)
    case True
    obtain p1' w1 where st: "gvt_step env p1 w = (p1', w1)" by (cases "gvt_step env p1 w")
    from Cons.prems True st have "run2 env sched (p0, p1', w1) = (q0, q1, w')" by simp
    from Cons.IH [OF this] step_no_client [OF assms st] show ?thesis by simp
  next
    case False
    obtain p0' w1 where st: "gvt_step env p0 w = (p0', w1)" by (cases "gvt_step env p0 w")
    from Cons.prems False st have "run2 env sched (p0', p1, w1) = (q0, q1, w')" by simp
    from Cons.IH [OF this] step_no_client [OF assms st] show ?thesis by simp
  qed
qed

lemma done_pending: "is_done q \<Longrightarrow> pending q = 0"
  by (cases q) simp_all

text \<open>The first step of a call that finds no credential in memory: the read of the store,
  which is rejected or finds nothing.\<close>

lemma start_loads:
  assumes "currentToken w = None" "stored_token w = None"
  shows "gvt_step env GVT_Start w
     = (GVT_Loaded (if storage_fails env (trace w)
                      then Inl (newError ''Failed to retrieve authentication token'')
                    else Inr None),
        emit (StorageGet AUTH_TOKEN) w)"
  using assms by (simp add: gvt_load_def StorageService_getAuthToken_def)

text \<open>
  Claim C6, as amended. The code has no joining of an acquisition in flight: a
  \<open>getValidToken\<close> call that finds no verifiable credential starts an interactive
  acquisition of its own, whether or not another one is pending. Take two \<open>getValidToken\<close>
  calls that both start before either resumes, with no credential in memory or in the
  store. Whatever the order in which they resume, once both have finished the identity
  provider has been invoked interactively exactly twice when a client id is configured and
  both calls' reads of the persisted credential succeed (whatever the store does
  afterwards, on the saves). A call whose read of the store is rejected fails without an
  acquisition, so each rejected read takes one invocation away; and without a configured
  client id there is none at all.
\<close>

theorem two_calls_two_acquisitions:
  assumes "currentToken w = None" and "stored_token w = None"
    and "first \<noteq> second"
    and "run2 env (first # second # rest) (GVT_Start, GVT_Start, w) = (q0, q1, w')"
    and "is_done q0" and "is_done q1"
  shows "interactive_acquisitions w' =
           interactive_acquisitions w +
             (if clientId env = [] then 0
              else (if storage_fails env (trace w) then 0 else 1)
                 + (if storage_fails env (trace w @ [StorageGet AUTH_TOKEN]) then 0 else 1))"
proof (cases "clientId env = []")
  case True
  with run2_no_client [OF True assms(4)] show ?thesis by simp
next
  case False
  let ?w1 = "emit (StorageGet AUTH_TOKEN) w"
  let ?w2 = "emit (StorageGet AUTH_TOKEN) ?w1"
  let ?r1 = "if storage_fails env (trace w)
               then Inl (newError ''Failed to retrieve authentication token'')
             else Inr (None :: string option)"
  let ?r2 = "if storage_fails env (trace ?w1)
               then Inl (newError ''Failed to retrieve authentication token'')
             else Inr (None :: string option)"
  have s1: "gvt_step env GVT_Start w = (GVT_Loaded ?r1, ?w1)"
    using assms(1,2) by (rule start_loads)
  have s2: "gvt_step env GVT_Start ?w1 = (GVT_Loaded ?r2, ?w2)"
    using assms(1,2) by (intro start_loads) (simp_all add: emit_def)
  have c: "committed (GVT_Loaded ?r1)" "committed (GVT_Loaded ?r2)" by simp_all
  have tr: "trace ?w1 = trace w @ [StorageGet AUTH_TOKEN]" by (simp add: emit_def)
  have a2: "interactive_acquisitions ?w2 = interactive_acquisitions w"
    by (simp add: acquisitions_emit)
  consider (ft) "first = False" "second = True" | (tf) "first = True" "second = False"
    using assms(3) by (cases first; cases second) simp_all
  then show ?thesis
  proof cases
    case ft
    with assms(4) s1 s2
    have "run2 env rest (GVT_Loaded ?r1, GVT_Loaded ?r2, ?w2) = (q0, q1, w')" by simp
    from run2_committed [OF False c(1) c(2) this]
    show ?thesis
      using done_pending [OF assms(5)] done_pending [OF assms(6)] False a2 tr
      by (cases "storage_fails env (trace w)";
          cases "storage_fails env (trace w @ [StorageGet AUTH_TOKEN])") simp_all
  next
    case tf
    with assms(4) s1 s2
    have "run2 env rest (GVT_Loaded ?r2, GVT_Loaded ?r1, ?w2) = (q0, q1, w')" by simp
    from run2_committed [OF False c(2) c(1) this]
    show ?thesis
      using done_pending [OF assms(5)] done_pending [OF assms(6)] False a2 tr
      by (cases "storage_fails env (trace w)";
          cases "storage_fails env (trace w @ [StorageGet AUTH_TOKEN])") simp_all
  qed
qed

text \<open>
  The claim as stated fails: two simultaneous calls with no credential, resumed in turn,
  both finish, and the trace holds two interactive acquisitions, not one.
\<close>

theorem two_calls_two_acquisitions_counterexample:
  "run2 env_consent [False, True, False, True, False, True, False, True]
       (GVT_Start, GVT_Start, w_empty)
     = (GVT_Done (Inr ''token-from-consent''), GVT_Done (Inr ''token-from-consent''),
        \<lparr>currentToken = Some ''token-from-consent'', stored_token = Some ''token-from-consent'',
         stored_config = None, initialized = True,
         trace = [StorageGet ''gmail_access_token'', StorageGet ''gmail_access_token'',
                  AcquireToken True, AcquireToken True,
                  StorageSet ''gmail_access_token'', StorageSet ''gmail_access_token'']\<rparr>)
   \<and> interactive_acquisitions
        (snd (snd (run2 env_consent [False, True, False, True, False, True, False, True]
                     (GVT_Start, GVT_Start, w_empty)))) = 2"
  by (simp add: env_consent_def w_empty_def gvt_load_def gvt_acquire_def
        StorageService_getAuthToken_def AuthService_getAuthToken_def saveAuthToken_def
        emit_def AUTH_TOKEN_def interactive_acquisitions_def)

text \<open>
  The amended claim at a provider that answers the consent request, and at a store that
  accepts the two reads and rejects everything after them: both calls then fail on their
  save, after two interactive acquisitions.
\<close>

theorem two_calls_two_acquisitions_witness:
  "is_done (fst (run2 env_consent [True, False, False, False, True, True, True, False]
                   (GVT_Start, GVT_Start, w_empty)))
   \<and> is_done (fst (snd (run2 env_consent [True, False, False, False, True, True, True, False]
                   (GVT_Start, GVT_Start, w_empty))))
   \<and> interactive_acquisitions
        (snd (snd (run2 env_consent [True, False, False, False, True, True, True, False]
                     (GVT_Start, GVT_Start, w_empty)))) = 2
   \<and> is_done (fst (run2 env_save_fails [False, True, False, True, False, True, False, True]
                   (GVT_Start, GVT_Start, w_empty)))
   \<and> is_done (fst (snd (run2 env_save_fails [False, True, False, True, False, True, False, True]
                   (GVT_Start, GVT_Start, w_empty))))
   \<and> interactive_acquisitions
        (snd (snd (run2 env_save_fails [False, True, False, True, False, True, False, True]
                     (GVT_Start, GVT_Start, w_empty)))) = 2"
proof -
  let ?sched = "[True, False, False, False, True, True, True, False]"
  let ?sched2 = "[False, True, False, True, False, True, False, True]"
  obtain q0 q1 w' where r: "run2 env_consent ?sched (GVT_Start, GVT_Start, w_empty) = (q0, q1, w')"
    by (cases "run2 env_consent ?sched (GVT_Start, GVT_Start, w_empty)")
  obtain p0 p1 v' where r2: "run2 env_save_fails ?sched2 (GVT_Start, GVT_Start, w_empty) = (p0, p1, v')"
    by (cases "run2 env_save_fails ?sched2 (GVT_Start, GVT_Start, w_empty)")
  have d: "is_done (fst (run2 env_consent ?sched (GVT_Start, GVT_Start, w_empty)))"
    "is_done (fst (snd (run2 env_consent ?sched (GVT_Start, GVT_Start, w_empty))))"
    by (simp_all add: env_consent_def w_empty_def gvt_load_def gvt_acquire_def
        StorageService_getAuthToken_def AuthService_getAuthToken_def saveAuthToken_def emit_def)
  have d2: "is_done (fst (run2 env_save_fails ?sched2 (GVT_Start, GVT_Start, w_empty)))"
    "is_done (fst (snd (run2 env_save_fails ?sched2 (GVT_Start, GVT_Start, w_empty))))"
    by (simp_all add: env_save_fails_def env_consent_def w_empty_def gvt_load_def gvt_acquire_def
        StorageService_getAuthToken_def AuthService_getAuthToken_def saveAuthToken_def emit_def)
  have h: "currentToken w_empty = None" "stored_token w_empty = None"
    by (simp_all add: w_empty_def)
  have ne: "True \<noteq> False" "False \<noteq> True" by simp_all
  have e: "clientId env_consent \<noteq> []" "\<not> storage_fails env_consent (trace w_empty)"
    "\<not> storage_fails env_consent (trace w_empty @ [StorageGet AUTH_TOKEN])"
    "clientId env_save_fails \<noteq> []" "\<not> storage_fails env_save_fails (trace w_empty)"
    "\<not> storage_fails env_save_fails (trace w_empty @ [StorageGet AUTH_TOKEN])"
    by (simp_all add: env_consent_def env_save_fails_def w_empty_def)
  have a0: "interactive_acquisitions w_empty = 0"
    by (simp add: interactive_acquisitions_def w_empty_def)
  from d r have dq: "is_done q0" "is_done q1" by simp_all
  from d2 r2 have dp: "is_done p0" "is_done p1" by simp_all
  from two_calls_two_acquisitions [OF h ne(1) r dq] a0 e
  have "interactive_acquisitions w' = 2" by simp
  moreover from two_calls_two_acquisitions [OF h ne(2) r2 dp] a0 e
  have "interactive_acquisitions v' = 2" by simp
  ultimately show ?thesis using r r2 d d2 by simp
qed

end
